theory Spec2Isabelle
  imports Complex_Main
begin

section \<open>Values, frames and errors\<close>

text \<open>
  The program (\<^verbatim>\<open>Runner_Cycle_Coach.py\<close>) works on pandas data frames. A cell of a
  frame is missing (\<open>NaN\<close> or \<open>NaT\<close>, both recognised by \<open>dropna\<close>), a finite
  number, a Python \<open>str\<close>, or a timestamp (nanoseconds since the epoch).
  A number is the value of an \<open>int64\<close> or of a finite \<open>float64\<close> cell, as a real;
  a cell never holds an infinity. The arithmetic of the metrics is given twice
  below: over the reals, and in binary64 as the program computes it.
\<close>

datatype cell = NA | Num real | Str string | Time int

text \<open>
  Every exception the modelled code can raise: \<open>KeyError\<close> with the missing
  labels, \<open>TypeError\<close> of an operation on a non-numeric cell, and \<open>ReadError\<close>
  for whatever \<^verbatim>\<open>pd.read_csv\<close> raises.
\<close>

datatype exn = KeyError "string list" | TypeError | ReadError string

text \<open>
  A frame holds its column labels and its rows in index order; a row gives the cell
  under each label (only the labels in \<open>columns\<close> are ever read).
\<close>

record frame =
  columns :: "string list"
  rows :: "(string \<Rightarrow> cell) list"

text \<open>\<^verbatim>\<open>pd.DataFrame()\<close>\<close>

definition empty_frame :: frame where
  "empty_frame = \<lparr>columns = [], rows = []\<rparr>"

text \<open>\<^verbatim>\<open>df.empty\<close>: some axis has length 0.\<close>

definition is_empty :: "frame \<Rightarrow> bool" where
  "is_empty df = (columns df = [] \<or> rows df = [])"

text \<open>\<^verbatim>\<open>df[c]\<close>: the column, or \<open>KeyError\<close>.\<close>

definition get_col :: "frame \<Rightarrow> string \<Rightarrow> exn + cell list" where
  "get_col df c =
     (if c \<in> set (columns df) then Inr (map (\<lambda>r. r c) (rows df))
      else Inl (KeyError [c]))"

text \<open>
  \<^verbatim>\<open>df[k] = series\<close>, for a series on the index of the frame the program is reading
  (all series of \<^verbatim>\<open>parse_file\<close> are). A frame with an empty index takes the index of
  the series, its other columns missing there; otherwise the label is replaced in
  place or appended.
\<close>

definition set_col :: "frame \<Rightarrow> string \<Rightarrow> cell list \<Rightarrow> frame" where
  "set_col df k vs =
     \<lparr>columns = (if k \<in> set (columns df) then columns df else columns df @ [k]),
      rows = (if rows df = [] then map (\<lambda>v. (\<lambda>_. NA)(k := v)) vs
              else map (\<lambda>(r, v). r(k := v)) (zip (rows df) vs))\<rparr>"

text \<open>\<^verbatim>\<open>series.dropna()\<close>\<close>

definition dropna_series :: "cell list \<Rightarrow> cell list" where
  "dropna_series cs = filter (\<lambda>c. c \<noteq> NA) cs"

text \<open>
  \<^verbatim>\<open>df.dropna(subset=ks)\<close>: \<open>KeyError\<close> with the labels that are no columns,
  otherwise the rows with no missing cell under \<open>ks\<close>, in order.
\<close>

definition dropna :: "frame \<Rightarrow> string list \<Rightarrow> exn + frame" where
  "dropna df ks =
     (case filter (\<lambda>k. k \<notin> set (columns df)) ks of
        [] \<Rightarrow> Inr (df\<lparr>rows := filter (\<lambda>r. list_all (\<lambda>k. r k \<noteq> NA) ks) (rows df)\<rparr>)
      | m # ms \<Rightarrow> Inl (KeyError (m # ms)))"

text \<open>Sequencing of steps that may raise.\<close>

definition bind_exn :: "exn + 'a \<Rightarrow> ('a \<Rightarrow> exn + 'b) \<Rightarrow> exn + 'b" where
  "bind_exn m f = (case m of Inl e \<Rightarrow> Inl e | Inr x \<Rightarrow> f x)"

section \<open>Floating-point results\<close>

text \<open>
  A computed statistic is a numpy \<open>float64\<close>: finite, an infinity, or NaN. Division
  by zero does not raise there; comparisons with NaN are false. The operations of
  this section are exact on finite operands; section \<open>Rounding to binary64\<close> rounds
  their results. Signed zeros are not told apart.
\<close>

datatype fl = Fin real | PInf | NInf | NaN

fun fl_div :: "fl \<Rightarrow> fl \<Rightarrow> fl" where
  "fl_div NaN _ = NaN"
| "fl_div _ NaN = NaN"
| "fl_div (Fin a) (Fin b) =
     (if b = 0 then (if a = 0 then NaN else if 0 < a then PInf else NInf)
      else Fin (a / b))"
| "fl_div (Fin a) PInf = Fin 0"
| "fl_div (Fin a) NInf = Fin 0"
| "fl_div PInf (Fin b) = (if 0 \<le> b then PInf else NInf)"
| "fl_div NInf (Fin b) = (if 0 \<le> b then NInf else PInf)"
| "fl_div PInf PInf = NaN"
| "fl_div PInf NInf = NaN"
| "fl_div NInf PInf = NaN"
| "fl_div NInf NInf = NaN"

fun fl_sub :: "fl \<Rightarrow> fl \<Rightarrow> fl" where
  "fl_sub NaN _ = NaN"
| "fl_sub _ NaN = NaN"
| "fl_sub (Fin a) (Fin b) = Fin (a - b)"
| "fl_sub (Fin a) PInf = NInf"
| "fl_sub (Fin a) NInf = PInf"
| "fl_sub PInf (Fin b) = PInf"
| "fl_sub NInf (Fin b) = NInf"
| "fl_sub PInf PInf = NaN"
| "fl_sub PInf NInf = PInf"
| "fl_sub NInf PInf = NInf"
| "fl_sub NInf NInf = NaN"

fun fl_mul :: "fl \<Rightarrow> fl \<Rightarrow> fl" where
  "fl_mul NaN _ = NaN"
| "fl_mul _ NaN = NaN"
| "fl_mul (Fin a) (Fin b) = Fin (a * b)"
| "fl_mul (Fin a) PInf = (if 0 < a then PInf else if a < 0 then NInf else NaN)"
| "fl_mul (Fin a) NInf = (if 0 < a then NInf else if a < 0 then PInf else NaN)"
| "fl_mul PInf (Fin b) = (if 0 < b then PInf else if b < 0 then NInf else NaN)"
| "fl_mul NInf (Fin b) = (if 0 < b then NInf else if b < 0 then PInf else NaN)"
| "fl_mul PInf PInf = PInf"
| "fl_mul PInf NInf = NInf"
| "fl_mul NInf PInf = NInf"
| "fl_mul NInf NInf = PInf"

fun fl_sqrt :: "fl \<Rightarrow> fl" where
  "fl_sqrt (Fin a) = (if 0 \<le> a then Fin (sqrt a) else NaN)"
| "fl_sqrt PInf = PInf"
| "fl_sqrt NInf = NaN"
| "fl_sqrt NaN = NaN"

text \<open>\<open>a < b\<close> and \<open>a <= b\<close>; \<open>a > b\<close> is \<open>fl_less b a\<close>.\<close>

fun fl_less :: "fl \<Rightarrow> fl \<Rightarrow> bool" where
  "fl_less NaN _ = False"
| "fl_less _ NaN = False"
| "fl_less (Fin a) (Fin b) = (a < b)"
| "fl_less (Fin a) PInf = True"
| "fl_less (Fin a) NInf = False"
| "fl_less PInf _ = False"
| "fl_less NInf (Fin b) = True"
| "fl_less NInf PInf = True"
| "fl_less NInf NInf = False"

fun fl_le :: "fl \<Rightarrow> fl \<Rightarrow> bool" where
  "fl_le NaN _ = False"
| "fl_le _ NaN = False"
| "fl_le (Fin a) (Fin b) = (a \<le> b)"
| "fl_le (Fin a) PInf = True"
| "fl_le (Fin a) NInf = False"
| "fl_le PInf (Fin b) = False"
| "fl_le PInf PInf = True"
| "fl_le PInf NInf = False"
| "fl_le NInf _ = True"

section \<open>The coach's feedback\<close>

text \<open>
  The dictionary \<^verbatim>\<open>calculate_metrics\<close> returns and \<^verbatim>\<open>generate_coach_feedback\<close>
  reads.
\<close>

record metrics =
  duration :: real
  avg_pwr :: fl
  norm_pwr :: fl
  avg_hr :: fl
  avg_cad :: fl
  ef :: fl
  decoupling :: fl

text \<open>
  The messages, named by their headline in the source. Each is a fixed string literal
  there, except the drift alert, an f-string that prints the decoupling it was given
  (the two cadence strings lack the \<open>f\<close> prefix and are literals).
\<close>

datatype message =
    Recovery_Ride
  | Sweet_Spot_Z2
  | High_Z2
  | Intensity_Alert
  | Efficiency_Excellent
  | Efficiency_Good
  | Drift_Alert fl
  | Grind_Warning
  | Spin_to_Win

text \<open>\<^verbatim>\<open>generate_coach_feedback(metrics)\<close>, the three checks in order.\<close>

definition power_check :: "metrics \<Rightarrow> message list" where
  "power_check m =
     (if fl_less (avg_pwr m) (Fin 115) then [Recovery_Ride]
      else if fl_le (Fin 125) (avg_pwr m) \<and> fl_le (avg_pwr m) (Fin 140) then [Sweet_Spot_Z2]
      else if fl_less (Fin 140) (avg_pwr m) \<and> fl_le (avg_pwr m) (Fin 155) then [High_Z2]
      else if fl_less (Fin 160) (avg_pwr m) then [Intensity_Alert]
      else [])"

definition decoupling_check :: "metrics \<Rightarrow> message list" where
  "decoupling_check m =
     (if fl_less (decoupling m) (Fin 3) then [Efficiency_Excellent]
      else if fl_less (decoupling m) (Fin 5) then [Efficiency_Good]
      else [Drift_Alert (decoupling m)])"

definition cadence_check :: "metrics \<Rightarrow> message list" where
  "cadence_check m =
     (if fl_less (avg_cad m) (Fin 85) then [Grind_Warning]
      else if fl_less (Fin 90) (avg_cad m) then [Spin_to_Win]
      else [])"

definition generate_coach_feedback :: "metrics \<Rightarrow> message list" where
  "generate_coach_feedback m = power_check m @ decoupling_check m @ cadence_check m"

text \<open>The rule a message belongs to.\<close>

fun is_power_message :: "message \<Rightarrow> bool" where
  "is_power_message Recovery_Ride = True"
| "is_power_message Sweet_Spot_Z2 = True"
| "is_power_message High_Z2 = True"
| "is_power_message Intensity_Alert = True"
| "is_power_message _ = False"

fun is_decoupling_message :: "message \<Rightarrow> bool" where
  "is_decoupling_message Efficiency_Excellent = True"
| "is_decoupling_message Efficiency_Good = True"
| "is_decoupling_message (Drift_Alert _) = True"
| "is_decoupling_message _ = False"

fun is_cadence_message :: "message \<Rightarrow> bool" where
  "is_cadence_message Grind_Warning = True"
| "is_cadence_message Spin_to_Win = True"
| "is_cadence_message _ = False"

section \<open>The metrics engine\<close>

text \<open>
  This section gives \<^verbatim>\<open>calculate_metrics\<close> over the reals: sums, quotients, squares
  and roots are exact, without the rounding, the overflow and the wrap-around of
  the machine numbers. This is the arithmetic in which the specification works its
  example. Section \<open>The metrics engine in binary64\<close> gives the function with the
  arithmetic of the program; both return \<open>None\<close> on the same frames.
\<close>

text \<open>A cell of a numeric series: a number or NaN.\<close>

fun numeric :: "cell \<Rightarrow> bool" where
  "numeric NA = True"
| "numeric (Num _) = True"
| "numeric (Str _) = False"
| "numeric (Time _) = False"

text \<open>The numbers of a series, the missing cells skipped.\<close>

fun num_values :: "cell list \<Rightarrow> real list" where
  "num_values [] = []"
| "num_values (Num x # cs) = x # num_values cs"
| "num_values (_ # cs) = num_values cs"

text \<open>
  \<^verbatim>\<open>series.mean()\<close>: pandas skips the missing cells (\<open>skipna\<close>), and the mean of
  no number is NaN. On a series holding a string or a timestamp it is modelled as a
  \<open>TypeError\<close>. The sum and the quotient are those of the reals here;
  \<open>series_mean_f64\<close> below rounds them.
\<close>

definition series_mean :: "cell list \<Rightarrow> exn + fl" where
  "series_mean cs =
     (if list_all numeric cs then
        Inr (case num_values cs of
               [] \<Rightarrow> NaN
             | x # xs \<Rightarrow> Fin (sum_list (x # xs) / real (length (x # xs))))
      else Inl TypeError)"

text \<open>\<^verbatim>\<open>series > t\<close>: false on NaN, \<open>TypeError\<close> on a string or a timestamp.\<close>

definition series_gt :: "cell list \<Rightarrow> real \<Rightarrow> exn + bool list" where
  "series_gt cs t =
     (if list_all numeric cs then
        Inr (map (\<lambda>c. case c of Num x \<Rightarrow> t < x | _ \<Rightarrow> False) cs)
      else Inl TypeError)"

text \<open>
  \<^verbatim>\<open>series ** 2\<close>, with the squares of the reals. The squares of the machine
  numbers are in \<open>series_sq_f64\<close> below: an \<open>int64\<close> square wraps from 3037000500
  on, a \<open>float64\<close> square is rounded and overflows to an infinity.
\<close>

definition series_sq :: "cell list \<Rightarrow> exn + cell list" where
  "series_sq cs =
     (if list_all numeric cs then
        Inr (map (\<lambda>c. case c of Num x \<Rightarrow> Num (x * x) | _ \<Rightarrow> c) cs)
      else Inl TypeError)"

text \<open>\<^verbatim>\<open>df[mask]\<close>, \<^verbatim>\<open>df.iloc[:n]\<close> and \<^verbatim>\<open>df.iloc[n:]\<close>\<close>

definition select_rows :: "frame \<Rightarrow> bool list \<Rightarrow> frame" where
  "select_rows df keep = df\<lparr>rows := map fst (filter snd (zip (rows df) keep))\<rparr>"

definition iloc_to :: "frame \<Rightarrow> nat \<Rightarrow> frame" where
  "iloc_to df n = df\<lparr>rows := take n (rows df)\<rparr>"

definition iloc_from :: "frame \<Rightarrow> nat \<Rightarrow> frame" where
  "iloc_from df n = df\<lparr>rows := drop n (rows df)\<rparr>"

text \<open>\<^verbatim>\<open>df[c].mean()\<close>\<close>

definition col_mean :: "frame \<Rightarrow> string \<Rightarrow> exn + fl" where
  "col_mean df c = bind_exn (get_col df c) series_mean"

text \<open>
  The decoupling of \<^verbatim>\<open>calculate_metrics\<close> (lines 80 to 89): the active rows are split
  at the midpoint, and the efficiency factors of the halves are compared.
\<close>

definition decoupling_of :: "frame \<Rightarrow> exn + fl" where
  "decoupling_of active =
     (let mid = length (rows active) div 2;
          h1 = iloc_to active mid;
          h2 = iloc_from active mid
      in if 0 < length (rows h1) \<and> 0 < length (rows h2) then
           bind_exn (col_mean h1 ''power'') (\<lambda>p1.
           bind_exn (col_mean h1 ''heart_rate'') (\<lambda>r1.
           bind_exn (col_mean h2 ''power'') (\<lambda>p2.
           bind_exn (col_mean h2 ''heart_rate'') (\<lambda>r2.
             let ef1 = fl_div p1 r1;
                 ef2 = fl_div p2 r2
             in Inr (fl_mul (fl_div (fl_sub ef1 ef2) ef1) (Fin 100))))))
         else Inr (Fin 0))"

text \<open>
  \<^verbatim>\<open>calculate_metrics(df)\<close> over the reals: \<open>Inr None\<close> is the returned \<open>None\<close>,
  \<open>Inl\<close> an exception that leaves the function.
\<close>

definition calculate_metrics :: "frame \<Rightarrow> exn + metrics option" where
  "calculate_metrics df =
     bind_exn (get_col df ''power'') (\<lambda>pw.
     bind_exn (series_gt pw 10) (\<lambda>pedalling.
       let active = select_rows df pedalling
       in if is_empty active then Inr None
          else
            let duration_min = real (length (rows df)) / 60
            in
            bind_exn (col_mean active ''power'') (\<lambda>avg_pwr'.
            bind_exn (bind_exn (bind_exn (get_col active ''power'') series_sq) series_mean) (\<lambda>msq.
            bind_exn (col_mean active ''heart_rate'') (\<lambda>avg_hr'.
            bind_exn (col_mean active ''cadence'') (\<lambda>avg_cad'.
            bind_exn (decoupling_of active) (\<lambda>decoupling'.
              Inr (Some \<lparr>duration = duration_min,
                         avg_pwr = avg_pwr',
                         norm_pwr = fl_sqrt msq,
                         avg_hr = avg_hr',
                         avg_cad = avg_cad',
                         ef = (if fl_less (Fin 0) avg_hr' then fl_div avg_pwr' avg_hr' else Fin 0),
                         decoupling = decoupling'\<rparr>))))))))"

section \<open>Rounding to binary64\<close>

text \<open>
  The program computes in IEEE 754 binary64 (\<open>float64\<close>), rounding every result to
  the nearest value, a tie to the one with an even last digit.
  \<open>round_half_even\<close> rounds a real to an integer in this way.
\<close>

definition round_half_even :: "real \<Rightarrow> int" where
  "round_half_even y =
     (let f = \<lfloor>y\<rfloor>
      in if y - of_int f < 1 / 2 then f
         else if 1 / 2 < y - of_int f then f + 1
         else if even f then f else f + 1)"

text \<open>
  The exponent of a number: the \<open>e\<close> with \<open>2^e \<le> |x| < 2^(e+1)\<close>, found by
  counting up from \<open>-1022\<close> (below \<open>2^-1022\<close> the numbers are subnormal and keep that
  exponent) and not beyond 1024.
\<close>

primrec exponent_from :: "nat \<Rightarrow> int \<Rightarrow> real \<Rightarrow> int" where
  "exponent_from 0 e x = e"
| "exponent_from (Suc k) e x =
     (if 2 powi (e + 1) \<le> x then exponent_from k (e + 1) x else e)"

definition exponent :: "real \<Rightarrow> int" where
  "exponent x = exponent_from 2046 (- 1022) \<bar>x\<bar>"

text \<open>
  The binary64 values with exponent \<open>e\<close> are the multiples of \<open>2^(e-52)\<close>.
  \<open>round_val x\<close> is the nearest of them, and \<open>round64 x\<close> the float that results:
  an infinity when the rounded magnitude reaches \<open>2^1024\<close>.
\<close>

definition round_val :: "real \<Rightarrow> real" where
  "round_val x = (let q = 2 powi (exponent x - 52) in of_int (round_half_even (x / q)) * q)"

definition round64 :: "real \<Rightarrow> fl" where
  "round64 x =
     (let r = round_val x
      in if 2 powi 1024 \<le> \<bar>r\<bar> then (if 0 < x then PInf else NInf) else Fin r)"

fun rounded :: "fl \<Rightarrow> fl" where
  "rounded (Fin x) = round64 x"
| "rounded y = y"

fun fl_add :: "fl \<Rightarrow> fl \<Rightarrow> fl" where
  "fl_add NaN _ = NaN"
| "fl_add _ NaN = NaN"
| "fl_add (Fin a) (Fin b) = Fin (a + b)"
| "fl_add (Fin a) PInf = PInf"
| "fl_add (Fin a) NInf = NInf"
| "fl_add PInf (Fin b) = PInf"
| "fl_add NInf (Fin b) = NInf"
| "fl_add PInf PInf = PInf"
| "fl_add PInf NInf = NaN"
| "fl_add NInf PInf = NaN"
| "fl_add NInf NInf = NInf"

text \<open>The operations of binary64: the exact result, rounded.\<close>

definition f64_add :: "fl \<Rightarrow> fl \<Rightarrow> fl" where
  "f64_add a b = rounded (fl_add a b)"

definition f64_sub :: "fl \<Rightarrow> fl \<Rightarrow> fl" where
  "f64_sub a b = rounded (fl_sub a b)"

definition f64_mul :: "fl \<Rightarrow> fl \<Rightarrow> fl" where
  "f64_mul a b = rounded (fl_mul a b)"

definition f64_div :: "fl \<Rightarrow> fl \<Rightarrow> fl" where
  "f64_div a b = rounded (fl_div a b)"

definition f64_sqrt :: "fl \<Rightarrow> fl" where
  "f64_sqrt a = rounded (fl_sqrt a)"

text \<open>
  Summation from left to right, each partial sum rounded. numpy adds fewer than
  eight numbers in this way and longer arrays pairwise in blocks; bottleneck, which
  pandas calls when it is installed, adds from left to right. The mean below
  therefore takes the summation as a parameter \<open>np_sum\<close>, and \<open>seq_sum\<close> is used
  on the short examples only.
\<close>

definition seq_sum :: "fl list \<Rightarrow> fl" where
  "seq_sum vs = foldl f64_add (Fin 0) vs"

section \<open>The metrics engine in binary64\<close>

text \<open>
  \<^verbatim>\<open>calculate_metrics\<close> once more, with the arithmetic of the program. A frame does
  not record the dtype of its \<open>power\<close> column, so the dtype is given beside it:
  pandas makes a column that it reads from integer literals only \<open>int64\<close>, any other
  numeric column \<open>float64\<close>. Only the squares depend on it.
\<close>

datatype dtype = Int64 | Float64

text \<open>The \<open>int64\<close> result of an integer operation: it wraps modulo \<open>2^64\<close>.\<close>

definition wrap64 :: "int \<Rightarrow> int" where
  "wrap64 n = (n + 2 ^ 63) mod 2 ^ 64 - 2 ^ 63"

text \<open>
  \<^verbatim>\<open>x ** 2\<close>. In \<open>float64\<close> the product is rounded, to an infinity when it
  overflows. In \<open>int64\<close> (where every cell is a whole number) the product wraps, and
  the mean converts it to \<open>float64\<close> before it sums.
\<close>

definition sq64 :: "real \<Rightarrow> fl" where
  "sq64 x = (let v = round64 x in f64_mul v v)"

fun pow2 :: "dtype \<Rightarrow> real \<Rightarrow> fl" where
  "pow2 Int64 x = round64 (of_int (wrap64 (\<lfloor>x\<rfloor> * \<lfloor>x\<rfloor>)))"
| "pow2 Float64 x = sq64 x"

text \<open>
  A cell of a numeric series as a \<open>float64\<close>: a missing cell is NaN, a \<open>float64\<close>
  is itself, an \<open>int64\<close> is converted, which rounds it.
\<close>

fun to_f64 :: "cell \<Rightarrow> fl" where
  "to_f64 (Num x) = round64 x"
| "to_f64 _ = NaN"

text \<open>
  \<^verbatim>\<open>pandas.core.nanops.nanmean\<close>, which \<^verbatim>\<open>series.mean()\<close> and \<^verbatim>\<open>np.mean(series)\<close>
  run: the missing values are replaced by 0 and the values summed; the sum is divided
  by the number of values that are not missing, and the mean of none is NaN.
\<close>

definition nanmean :: "(fl list \<Rightarrow> fl) \<Rightarrow> fl list \<Rightarrow> fl" where
  "nanmean np_sum vs =
     (let values = map (\<lambda>v. if v = NaN then Fin 0 else v) vs;
          count = length (filter (\<lambda>v. v \<noteq> NaN) vs);
          the_sum = np_sum values
      in if 0 < count then f64_div the_sum (round64 (real count)) else NaN)"

definition series_mean_f64 :: "(fl list \<Rightarrow> fl) \<Rightarrow> cell list \<Rightarrow> exn + fl" where
  "series_mean_f64 np_sum cs =
     (if list_all numeric cs then Inr (nanmean np_sum (map to_f64 cs)) else Inl TypeError)"

definition series_sq_f64 :: "dtype \<Rightarrow> cell list \<Rightarrow> exn + fl list" where
  "series_sq_f64 dt cs =
     (if list_all numeric cs then
        Inr (map (\<lambda>c. case c of Num x \<Rightarrow> pow2 dt x | _ \<Rightarrow> NaN) cs)
      else Inl TypeError)"

definition col_mean_f64 :: "(fl list \<Rightarrow> fl) \<Rightarrow> frame \<Rightarrow> string \<Rightarrow> exn + fl" where
  "col_mean_f64 np_sum df c = bind_exn (get_col df c) (series_mean_f64 np_sum)"

text \<open>Lines 80 to 89.\<close>

definition decoupling_of_f64 :: "(fl list \<Rightarrow> fl) \<Rightarrow> frame \<Rightarrow> exn + fl" where
  "decoupling_of_f64 np_sum active =
     (let mid = length (rows active) div 2;
          h1 = iloc_to active mid;
          h2 = iloc_from active mid
      in if 0 < length (rows h1) \<and> 0 < length (rows h2) then
           bind_exn (col_mean_f64 np_sum h1 ''power'') (\<lambda>p1.
           bind_exn (col_mean_f64 np_sum h1 ''heart_rate'') (\<lambda>r1.
           bind_exn (col_mean_f64 np_sum h2 ''power'') (\<lambda>p2.
           bind_exn (col_mean_f64 np_sum h2 ''heart_rate'') (\<lambda>r2.
             let ef1 = f64_div p1 r1;
                 ef2 = f64_div p2 r2
             in Inr (f64_mul (f64_div (f64_sub ef1 ef2) ef1) (Fin 100))))))
         else Inr (Fin 0))"

text \<open>
  \<^verbatim>\<open>calculate_metrics(df)\<close>, for a frame whose \<open>power\<close> column has dtype \<open>dt\<close>.
  \<^verbatim>\<open>len(df) / 60\<close> is Python's quotient of two integers, which is correctly rounded
  (no frame has the rows to make it overflow).
\<close>

definition calculate_metrics_f64 ::
  "dtype \<Rightarrow> (fl list \<Rightarrow> fl) \<Rightarrow> frame \<Rightarrow> exn + metrics option" where
  "calculate_metrics_f64 dt np_sum df =
     bind_exn (get_col df ''power'') (\<lambda>pw.
     bind_exn (series_gt pw 10) (\<lambda>pedalling.
       let active = select_rows df pedalling
       in if is_empty active then Inr None
          else
            let duration_min = round_val (real (length (rows df)) / 60)
            in
            bind_exn (col_mean_f64 np_sum active ''power'') (\<lambda>avg_pwr'.
            bind_exn (bind_exn (get_col active ''power'') (series_sq_f64 dt)) (\<lambda>squares.
            bind_exn (col_mean_f64 np_sum active ''heart_rate'') (\<lambda>avg_hr'.
            bind_exn (col_mean_f64 np_sum active ''cadence'') (\<lambda>avg_cad'.
            bind_exn (decoupling_of_f64 np_sum active) (\<lambda>decoupling'.
              Inr (Some \<lparr>duration = duration_min,
                         avg_pwr = avg_pwr',
                         norm_pwr = f64_sqrt (nanmean np_sum squares),
                         avg_hr = avg_hr',
                         avg_cad = avg_cad',
                         ef = (if fl_less (Fin 0) avg_hr' then f64_div avg_pwr' avg_hr'
                               else Fin 0),
                         decoupling = decoupling'\<rparr>))))))))"

section \<open>The normalizer\<close>

text \<open>Python's \<^verbatim>\<open>pat in s\<close> on strings.\<close>

fun str_contains :: "string \<Rightarrow> string \<Rightarrow> bool" where
  "str_contains pat [] = (pat = [])"
| "str_contains pat (c # cs) = (take (length pat) (c # cs) = pat \<or> str_contains pat cs)"

text \<open>
  The shift detection of \<^verbatim>\<open>parse_file\<close> (lines 32 to 36). The sample is the first cell
  of the marker column that is not missing, or the empty string.
\<close>

definition is_shifted :: "frame \<Rightarrow> bool" where
  "is_shifted df_raw =
     (if ''GOTOES_CSV'' \<in> set (columns df_raw) then
        (let sample = (case dropna_series (map (\<lambda>r. r ''GOTOES_CSV'') (rows df_raw)) of
                         [] \<Rightarrow> Str ''''
                       | c # _ \<Rightarrow> c)
         in case sample of
              Str s \<Rightarrow> str_contains ''202'' s \<or> str_contains ''T'' s
            | _ \<Rightarrow> False)
      else False)"

text \<open>
  \<^verbatim>\<open>pd.to_datetime(series, errors='coerce')\<close> and \<^verbatim>\<open>pd.to_numeric(series, errors='coerce')\<close>
  are pandas' own. What they make of one cell is a parameter (\<open>to_datetime\<close>,
  \<open>to_numeric\<close>): a value, or nothing, which becomes a missing cell.
\<close>

definition coerce_datetime :: "(cell \<Rightarrow> int option) \<Rightarrow> cell list \<Rightarrow> cell list" where
  "coerce_datetime to_datetime cs =
     map (\<lambda>c. case to_datetime c of None \<Rightarrow> NA | Some t \<Rightarrow> Time t) cs"

definition coerce_numeric :: "(cell \<Rightarrow> real option) \<Rightarrow> cell list \<Rightarrow> cell list" where
  "coerce_numeric to_numeric cs =
     map (\<lambda>c. case to_numeric c of None \<Rightarrow> NA | Some x \<Rightarrow> Num x) cs"

text \<open>The shifted branch (lines 41 to 44).\<close>

definition clean_shifted ::
  "(cell \<Rightarrow> int option) \<Rightarrow> (cell \<Rightarrow> real option) \<Rightarrow> frame \<Rightarrow> exn + frame" where
  "clean_shifted to_datetime to_numeric df_raw =
     bind_exn (get_col df_raw ''GOTOES_CSV'') (\<lambda>c0.
     bind_exn (get_col df_raw ''altitude'') (\<lambda>c1.
     bind_exn (get_col df_raw ''heart_rate'') (\<lambda>c2.
     bind_exn (get_col df_raw ''speed'') (\<lambda>c3.
       Inr (set_col
             (set_col
               (set_col
                 (set_col empty_frame ''timestamp'' (coerce_datetime to_datetime c0))
                 ''heart_rate'' (coerce_numeric to_numeric c1))
               ''cadence'' (coerce_numeric to_numeric c2))
             ''power'' (coerce_numeric to_numeric c3))))))"

text \<open>The standard branch (lines 46 to 54).\<close>

definition col_map :: "(string \<times> string) list" where
  "col_map = [(''timestamp'', ''timestamp''), (''heart_rate'', ''heart_rate''),
              (''cadence'', ''cadence''), (''power'', ''power'')]"

definition clean_standard :: "(cell \<Rightarrow> int option) \<Rightarrow> frame \<Rightarrow> frame" where
  "clean_standard to_datetime df_raw =
     (if ''power'' \<in> set (columns df_raw) then
        (let df_clean =
               fold (\<lambda>(k, v) d.
                       if v \<in> set (columns df_raw)
                       then set_col d k (map (\<lambda>r. r v) (rows df_raw)) else d)
                    col_map empty_frame
         in if ''timestamp'' \<in> set (columns df_clean)
            then set_col df_clean ''timestamp''
                   (coerce_datetime to_datetime (map (\<lambda>r. r ''timestamp'') (rows df_clean)))
            else df_clean)
      else empty_frame)"

text \<open>The body of the \<^verbatim>\<open>try\<close>, after \<^verbatim>\<open>pd.read_csv\<close> has returned \<open>df_raw\<close>.\<close>

definition parse_body ::
  "(cell \<Rightarrow> int option) \<Rightarrow> (cell \<Rightarrow> real option) \<Rightarrow> frame \<Rightarrow> exn + frame" where
  "parse_body to_datetime to_numeric df_raw =
     bind_exn (if is_shifted df_raw then clean_shifted to_datetime to_numeric df_raw
               else Inr (clean_standard to_datetime df_raw))
       (\<lambda>df_clean. dropna df_clean [''timestamp'', ''power''])"

text \<open>
  \<^verbatim>\<open>parse_file(uploaded_file)\<close>. \<open>read_csv\<close> is \<^verbatim>\<open>pd.read_csv\<close> with the options of
  the call: it returns a frame or raises. The result is the returned frame and the
  errors shown with \<^verbatim>\<open>st.error\<close>; the \<^verbatim>\<open>except Exception\<close> clause catches whatever the
  body raised.
\<close>

definition parse_file ::
  "('f \<Rightarrow> exn + frame) \<Rightarrow> (cell \<Rightarrow> int option) \<Rightarrow> (cell \<Rightarrow> real option) \<Rightarrow> 'f
     \<Rightarrow> frame \<times> exn list" where
  "parse_file read_csv to_datetime to_numeric uploaded_file =
     (case bind_exn (read_csv uploaded_file) (parse_body to_datetime to_numeric) of
        Inl e \<Rightarrow> (empty_frame, [e])
      | Inr df_clean \<Rightarrow> (df_clean, []))"

section \<open>Notions the properties are stated with\<close>

text \<open>
  A frame has a numeric column \<open>c\<close>: the label is a column and every cell under it
  is a number or missing.
\<close>

definition has_numeric :: "frame \<Rightarrow> string \<Rightarrow> bool" where
  "has_numeric df c = (c \<in> set (columns df) \<and> list_all (\<lambda>r. numeric (r c)) (rows df))"

text \<open>The active samples: the rows whose power is a number above 10.\<close>

definition is_active :: "(string \<Rightarrow> cell) \<Rightarrow> bool" where
  "is_active r = (case r ''power'' of Num x \<Rightarrow> 10 < x | _ \<Rightarrow> False)"

definition active_rows :: "frame \<Rightarrow> (string \<Rightarrow> cell) list" where
  "active_rows df = filter is_active (rows df)"


text \<open>The numbers that some rows hold under a label.\<close>

definition col_values :: "string \<Rightarrow> (string \<Rightarrow> cell) list \<Rightarrow> real list" where
  "col_values c rs = num_values (map (\<lambda>r. r c) rs)"


text \<open>The same frame with other cells under \<open>timestamp\<close>.\<close>

definition retimed :: "((string \<Rightarrow> cell) \<Rightarrow> cell) \<Rightarrow> frame \<Rightarrow> frame" where
  "retimed g df = df\<lparr>rows := map (\<lambda>r. r(''timestamp'' := g r)) (rows df)\<rparr>"

text \<open>
  The detection rule in the words of the specification: the marker column exists and
  its first value that is not missing is a string containing \<open>202\<close> or the letter
  \<open>T\<close>.
\<close>

definition has_substring :: "string \<Rightarrow> string \<Rightarrow> bool" where
  "has_substring pat s = (\<exists>a b. s = a @ pat @ b)"

definition first_present :: "cell list \<Rightarrow> cell option" where
  "first_present cs = find (\<lambda>c. c \<noteq> NA) cs"

definition marker_detected :: "frame \<Rightarrow> bool" where
  "marker_detected df =
     (''GOTOES_CSV'' \<in> set (columns df) \<and>
      (\<exists>s. first_present (map (\<lambda>r. r ''GOTOES_CSV'') (rows df)) = Some (Str s) \<and>
           (has_substring ''202'' s \<or> CHR ''T'' \<in> set s)))"

text \<open>
  What the standard layout makes of one raw row, and the rows it keeps: those whose
  timestamp parses and whose power cell is not missing.
\<close>

definition standard_row ::
  "(cell \<Rightarrow> int option) \<Rightarrow> string list \<Rightarrow> (string \<Rightarrow> cell) \<Rightarrow> string \<Rightarrow> cell" where
  "standard_row to_datetime cs r =
     (\<lambda>k. if k = ''timestamp''
          then (case to_datetime (r ''timestamp'') of None \<Rightarrow> NA | Some t \<Rightarrow> Time t)
          else if k \<in> {''heart_rate'', ''cadence'', ''power''} \<and> k \<in> set cs then r k
          else NA)"

definition standard_kept :: "(cell \<Rightarrow> int option) \<Rightarrow> (string \<Rightarrow> cell) \<Rightarrow> bool" where
  "standard_kept to_datetime r = (to_datetime (r ''timestamp'') \<noteq> None \<and> r ''power'' \<noteq> NA)"

text \<open>
  What the shifted layout makes of one raw row (the timestamp from the marker column,
  the heart rate from \<open>altitude\<close>, the cadence from \<open>heart_rate\<close>, the power from
  \<open>speed\<close>), and the rows it keeps.
\<close>

definition shifted_row ::
  "(cell \<Rightarrow> int option) \<Rightarrow> (cell \<Rightarrow> real option) \<Rightarrow> (string \<Rightarrow> cell) \<Rightarrow> string \<Rightarrow> cell" where
  "shifted_row to_datetime to_numeric r =
     (\<lambda>_. NA)
       (''timestamp'' := (case to_datetime (r ''GOTOES_CSV'') of None \<Rightarrow> NA | Some t \<Rightarrow> Time t),
        ''heart_rate'' := (case to_numeric (r ''altitude'') of None \<Rightarrow> NA | Some x \<Rightarrow> Num x),
        ''cadence'' := (case to_numeric (r ''heart_rate'') of None \<Rightarrow> NA | Some x \<Rightarrow> Num x),
        ''power'' := (case to_numeric (r ''speed'') of None \<Rightarrow> NA | Some x \<Rightarrow> Num x))"

definition shifted_kept ::
  "(cell \<Rightarrow> int option) \<Rightarrow> (cell \<Rightarrow> real option) \<Rightarrow> (string \<Rightarrow> cell) \<Rightarrow> bool" where
  "shifted_kept to_datetime to_numeric r =
     (to_datetime (r ''GOTOES_CSV'') \<noteq> None \<and> to_numeric (r ''speed'') \<noteq> None)"

text \<open>
  The decoupling percentage of a list of rows in binary64, with the summation
  \<open>np_sum\<close>.
\<close>

definition halves_decoupling_f64 :: "(fl list \<Rightarrow> fl) \<Rightarrow> (string \<Rightarrow> cell) list \<Rightarrow> fl" where
  "halves_decoupling_f64 np_sum rs =
     (let h1 = take (length rs div 2) rs;
          h2 = drop (length rs div 2) rs;
          ef1 = f64_div (nanmean np_sum (map (\<lambda>r. to_f64 (r ''power'')) h1))
                        (nanmean np_sum (map (\<lambda>r. to_f64 (r ''heart_rate'')) h1));
          ef2 = f64_div (nanmean np_sum (map (\<lambda>r. to_f64 (r ''power'')) h2))
                        (nanmean np_sum (map (\<lambda>r. to_f64 (r ''heart_rate'')) h2))
      in if h1 = [] \<or> h2 = [] then Fin 0
         else f64_mul (f64_div (f64_sub ef1 ef2) ef1) (Fin 100))"

text \<open>
  A summation is exact on whole numbers: of whole numbers that are not negative and
  whose sum is below \<open>2^53\<close> it returns the sum. In whatever order such numbers are
  added, every partial sum is a whole number below \<open>2^53\<close>, which binary64 holds
  without rounding; so numpy's pairwise summation has the property, and so has the
  loop from left to right.
\<close>

fun is_whole :: "fl \<Rightarrow> bool" where
  "is_whole (Fin x) = (0 \<le> x \<and> of_int \<lfloor>x\<rfloor> = x)"
| "is_whole _ = False"

fun fl_val :: "fl \<Rightarrow> real" where
  "fl_val (Fin x) = x"
| "fl_val _ = 0"

definition exact_on_whole :: "(fl list \<Rightarrow> fl) \<Rightarrow> bool" where
  "exact_on_whole np_sum =
     (\<forall>vs. list_all is_whole vs \<and> sum_list (map fl_val vs) < 2 ^ 53
        \<longrightarrow> np_sum vs = Fin (sum_list (map fl_val vs)))"

text \<open>
  A whole number whose \<open>int64\<close> square does not wrap: \<open>3037000499^2\<close> is below
  \<open>2^63\<close>, \<open>3037000500^2\<close> is not.
\<close>

definition small_int :: "real \<Rightarrow> bool" where
  "small_int x = (of_int \<lfloor>x\<rfloor> = x \<and> \<bar>x\<bar> < 3037000500)"

section \<open>Example inputs\<close>

text \<open>Rides, as frames with the four columns of a normalized series.\<close>

definition sample :: "cell \<Rightarrow> cell \<Rightarrow> cell \<Rightarrow> cell \<Rightarrow> string \<Rightarrow> cell" where
  "sample t h c p =
     (\<lambda>_. NA)(''timestamp'' := t, ''heart_rate'' := h, ''cadence'' := c, ''power'' := p)"

definition ride_columns :: "string list" where
  "ride_columns = [''timestamp'', ''heart_rate'', ''cadence'', ''power'']"

definition idle_ride :: frame where
  "idle_ride =
     \<lparr>columns = ride_columns,
      rows = [sample (Time 0) (Num 90) (Num 0) (Num 0),
              sample (Time 1) (Num 92) NA (Num 10),
              sample (Time 2) (Num 91) (Num 40) NA]\<rparr>"

definition mixed_ride :: frame where
  "mixed_ride =
     \<lparr>columns = ride_columns,
      rows = [sample (Time 0) (Num 100) (Num 80) (Num 0),
              sample (Time 1) (Num 120) (Num 85) (Num 200),
              sample (Time 2) NA (Num 95) (Num 100),
              sample (Time 3) (Num 130) (Num 90) (Num 5)]\<rparr>"

definition one_active_ride :: frame where
  "one_active_ride =
     \<lparr>columns = ride_columns,
      rows = [sample (Time 0) (Num 100) (Num 80) (Num 0),
              sample (Time 1) (Num 120) (Num 85) (Num 200),
              sample (Time 2) (Num 130) (Num 90) (Num 5)]\<rparr>"

definition steady_ride :: frame where
  "steady_ride =
     \<lparr>columns = ride_columns,
      rows = map (\<lambda>i. sample (Time (int i)) (Num 130) (Num 88) (Num 200)) [0..<5]\<rparr>"


definition example_metrics :: metrics where
  "example_metrics =
     \<lparr>duration = 60, avg_pwr = Fin 150, norm_pwr = Fin 151, avg_hr = Fin 120,
      avg_cad = Fin 88, ef = Fin (5 / 4), decoupling = NaN\<rparr>"

text \<open>
  Seven equal samples of power 200.3 and heart rate 130.7, as \<^verbatim>\<open>read_csv\<close> reads
  them: the nearest binary64 values.
\<close>

definition fractional_ride :: frame where
  "fractional_ride =
     \<lparr>columns = ride_columns,
      rows = map (\<lambda>i. sample (Time (int i)) (Num (round_val (1307 / 10))) (Num 88)
                        (Num (round_val (2003 / 10)))) [0..<7]\<rparr>"

text \<open>One sample, with a power of 4000000000.\<close>

definition gigawatt_ride :: frame where
  "gigawatt_ride =
     \<lparr>columns = ride_columns,
      rows = [sample (Time 0) (Num 120) (Num 85) (Num 4000000000)]\<rparr>"

text \<open>
  Uploads and stand-ins for the three pandas functions, for the examples only: a
  reader that fails on garbage, a date parser that accepts the strings with a \<open>T\<close>,
  and a number parser that accepts numbers.
\<close>

datatype upload = Garbage | Table frame

definition stub_read_csv :: "upload \<Rightarrow> exn + frame" where
  "stub_read_csv u =
     (case u of Garbage \<Rightarrow> Inl (ReadError ''No columns to parse from file'')
              | Table df \<Rightarrow> Inr df)"

definition stub_to_datetime :: "cell \<Rightarrow> int option" where
  "stub_to_datetime c =
     (case c of Str s \<Rightarrow> (if str_contains ''T'' s then Some (int (length s)) else None)
              | Time t \<Rightarrow> Some t
              | _ \<Rightarrow> None)"

definition stub_to_numeric :: "cell \<Rightarrow> real option" where
  "stub_to_numeric c = (case c of Num x \<Rightarrow> Some x | _ \<Rightarrow> None)"

text \<open>Raw tables; a row holds the listed cells, every other cell is missing.\<close>

definition raw_row :: "(string \<times> cell) list \<Rightarrow> string \<Rightarrow> cell" where
  "raw_row kvs k = (case map_of kvs k of None \<Rightarrow> NA | Some c \<Rightarrow> c)"

definition shifted_export :: frame where
  "shifted_export =
     \<lparr>columns = [''GOTOES_CSV'', ''altitude'', ''heart_rate'', ''speed'', ''power''],
      rows = [raw_row [(''altitude'', Num 120), (''heart_rate'', Num 85), (''speed'', Num 180)],
              raw_row [(''GOTOES_CSV'', Str ''2024-05-01T10:00:01''), (''altitude'', Num 121),
                       (''heart_rate'', Num 86), (''speed'', Num 185)]]\<rparr>"

definition numeric_marker_export :: frame where
  "numeric_marker_export =
     \<lparr>columns = [''GOTOES_CSV'', ''timestamp'', ''power''],
      rows = [raw_row [(''GOTOES_CSV'', Num 2024), (''timestamp'', Str ''2024-05-01T10:00:00''),
                       (''power'', Num 150)]]\<rparr>"

definition marked_standard_export :: frame where
  "marked_standard_export =
     \<lparr>columns = [''GOTOES_CSV'', ''timestamp'', ''power''],
      rows = [raw_row [(''GOTOES_CSV'', Str ''2024-05-01T10:00:00''),
                       (''timestamp'', Str ''2024-05-01T10:00:00''), (''power'', Num 150)]]\<rparr>"

definition standard_export :: frame where
  "standard_export =
     \<lparr>columns = [''timestamp'', ''heart_rate'', ''power''],
      rows = [raw_row [(''timestamp'', Str ''2024-05-01T10:00:00''), (''heart_rate'', Num 120),
                       (''power'', Num 200)],
              raw_row [(''timestamp'', Str ''yesterday''), (''heart_rate'', Num 121),
                       (''power'', Num 210)],
              raw_row [(''timestamp'', Str ''2024-05-01T10:00:02''), (''heart_rate'', Num 122)],
              raw_row [(''timestamp'', Str ''2024-05-01T10:00:03''), (''power'', Num 190)]]\<rparr>"

definition text_power_export :: frame where
  "text_power_export =
     \<lparr>columns = [''timestamp'', ''heart_rate'', ''cadence'', ''power''],
      rows = [raw_row [(''timestamp'', Str ''2024-05-01T10:00:00''), (''heart_rate'', Num 120),
                       (''cadence'', Num 90), (''power'', Str ''err'')]]\<rparr>"

section \<open>Feedback rules\<close>

lemma fl_less_Fin: "fl_less x (Fin c) = (x = NInf \<or> (\<exists>a. x = Fin a \<and> a < c))"
  by (cases x) auto

lemma Fin_less_fl: "fl_less (Fin c) x = (x = PInf \<or> (\<exists>a. x = Fin a \<and> c < a))"
  by (cases x) auto

lemma fl_le_Fin: "fl_le x (Fin c) = (x = NInf \<or> (\<exists>a. x = Fin a \<and> a \<le> c))"
  by (cases x) auto

lemma Fin_le_fl: "fl_le (Fin c) x = (x = PInf \<or> (\<exists>a. x = Fin a \<and> c \<le> a))"
  by (cases x) auto

lemma power_check_cases:
  "power_check m = [] \<or> (\<exists>x. power_check m = [x] \<and> is_power_message x)"
  by (simp add: power_check_def)

lemma decoupling_check_cases:
  "\<exists>x. decoupling_check m = [x] \<and> is_decoupling_message x"
  by (simp add: decoupling_check_def)

lemma cadence_check_cases:
  "cadence_check m = [] \<or> (\<exists>x. cadence_check m = [x] \<and> is_cadence_message x)"
  by (simp add: cadence_check_def)

lemma power_check_no_decoupling:
  "filter is_decoupling_message (power_check m) = []"
  by (simp add: power_check_def)

lemma cadence_check_no_decoupling:
  "filter is_decoupling_message (cadence_check m) = []"
  by (simp add: cadence_check_def)

text \<open>
  Claim C5. Whatever the other metrics are: a decoupling below 3 (or minus infinity)
  gives the Excellent-efficiency message, a decoupling of at least 3 and below 5 gives
  the Good-efficiency message, and a decoupling of at least 5 (or plus infinity)
  gives the drift alert, which carries the decoupling. In each case the message named
  is the only decoupling message of the list: the bound 3 belongs to the Good range,
  and the bound 5 to the drift alert alone, as the row \<open>\<ge> 5\<close> of the rule table
  has it.
\<close>

theorem decoupling_rule:
  "((x = NInf \<or> (\<exists>d. x = Fin d \<and> d < 3)) \<longrightarrow>
      Efficiency_Excellent \<in> set (generate_coach_feedback (m\<lparr>decoupling := x\<rparr>)) \<and>
      filter is_decoupling_message (generate_coach_feedback (m\<lparr>decoupling := x\<rparr>))
        = [Efficiency_Excellent]) \<and>
   ((\<exists>d. x = Fin d \<and> 3 \<le> d \<and> d < 5) \<longrightarrow>
      Efficiency_Good \<in> set (generate_coach_feedback (m\<lparr>decoupling := x\<rparr>)) \<and>
      filter is_decoupling_message (generate_coach_feedback (m\<lparr>decoupling := x\<rparr>))
        = [Efficiency_Good]) \<and>
   ((x = PInf \<or> (\<exists>d. x = Fin d \<and> 5 \<le> d)) \<longrightarrow>
      Drift_Alert x \<in> set (generate_coach_feedback (m\<lparr>decoupling := x\<rparr>)) \<and>
      filter is_decoupling_message (generate_coach_feedback (m\<lparr>decoupling := x\<rparr>))
        = [Drift_Alert x])"
  by (cases x)
    (auto simp: generate_coach_feedback_def decoupling_check_def
      power_check_no_decoupling cadence_check_no_decoupling)

text \<open>The rule at 2, at the bound 3, at 4 and at 7.\<close>

theorem decoupling_rule_witness:
  "Efficiency_Excellent \<in> set (generate_coach_feedback (example_metrics\<lparr>decoupling := Fin 2\<rparr>)) \<and>
   Efficiency_Good \<in> set (generate_coach_feedback (example_metrics\<lparr>decoupling := Fin 3\<rparr>)) \<and>
   Efficiency_Good \<in> set (generate_coach_feedback (example_metrics\<lparr>decoupling := Fin 4\<rparr>)) \<and>
   Drift_Alert (Fin 7) \<in> set (generate_coach_feedback (example_metrics\<lparr>decoupling := Fin 7\<rparr>))"
  using decoupling_rule [of "Fin 2" example_metrics] decoupling_rule [of "Fin 3" example_metrics]
    decoupling_rule [of "Fin 4" example_metrics] decoupling_rule [of "Fin 7" example_metrics]
  by simp

text \<open>At exactly 5 the list holds the drift alert and no Good-efficiency message.\<close>

lemma decoupling_five_is_drift:
  "Efficiency_Good \<notin> set (generate_coach_feedback (example_metrics\<lparr>decoupling := Fin 5\<rparr>)) \<and>
   generate_coach_feedback (example_metrics\<lparr>decoupling := Fin 5\<rparr>)
     = [High_Z2, Drift_Alert (Fin 5)]"
  by (simp add: generate_coach_feedback_def power_check_def decoupling_check_def
      cadence_check_def example_metrics_def)

text \<open>
  Claim C8. Metrics with an average power of 130, a decoupling of 2 and an average
  cadence of 95 (the other fields arbitrary) give exactly the Sweet-spot Z2 message,
  the Excellent-efficiency message and the cadence message for values above 90
  (``Spin to Win''), in this order.
\<close>

theorem feedback_sweet_spot_example:
  "generate_coach_feedback (m\<lparr>avg_pwr := Fin 130, decoupling := Fin 2, avg_cad := Fin 95\<rparr>)
     = [Sweet_Spot_Z2, Efficiency_Excellent, Spin_to_Win]"
  by (simp add: generate_coach_feedback_def power_check_def decoupling_check_def
      cadence_check_def)

theorem feedback_sweet_spot_example_witness:
  "generate_coach_feedback
     \<lparr>duration = 60, avg_pwr = Fin 130, norm_pwr = Fin 151, avg_hr = Fin 120,
      avg_cad = Fin 95, ef = Fin (5 / 4), decoupling = Fin 2\<rparr>
     = [Sweet_Spot_Z2, Efficiency_Excellent, Spin_to_Win]"
  using feedback_sweet_spot_example [of example_metrics]
  by (simp add: example_metrics_def)

text \<open>
  Claim C10. For all metrics, NaN and infinities included, the feedback holds exactly
  one decoupling message, at most one power message and at most one cadence message;
  so it is not empty and has between one and three messages.
\<close>

theorem feedback_message_counts:
  "length (filter is_decoupling_message (generate_coach_feedback m)) = 1 \<and>
   length (filter is_power_message (generate_coach_feedback m)) \<le> 1 \<and>
   length (filter is_cadence_message (generate_coach_feedback m)) \<le> 1 \<and>
   generate_coach_feedback m \<noteq> [] \<and>
   1 \<le> length (generate_coach_feedback m) \<and>
   length (generate_coach_feedback m) \<le> 3"
proof -
  obtain d where d: "decoupling_check m = [d]" "is_decoupling_message d"
    using decoupling_check_cases by blast
  have nd: "\<not> is_power_message d" "\<not> is_cadence_message d"
    using d(2) by (cases d; simp)+
  consider "power_check m = []"
    | p where "power_check m = [p]" "is_power_message p"
    using power_check_cases by blast
  then show ?thesis
  proof cases
    case 1
    consider "cadence_check m = []"
      | c where "cadence_check m = [c]" "is_cadence_message c"
      using cadence_check_cases by blast
    then show ?thesis
    proof cases
      case 1
      with \<open>power_check m = []\<close> d nd show ?thesis
        by (simp add: generate_coach_feedback_def)
    next
      case 2
      then have "\<not> is_power_message c" "\<not> is_decoupling_message c"
        by (cases c; simp)+
      with 2 \<open>power_check m = []\<close> d nd show ?thesis
        by (simp add: generate_coach_feedback_def)
    qed
  next
    case 2
    then have np: "\<not> is_decoupling_message p" "\<not> is_cadence_message p"
      by (cases p; simp)+
    consider "cadence_check m = []"
      | c where "cadence_check m = [c]" "is_cadence_message c"
      using cadence_check_cases by blast
    then show ?thesis
    proof cases
      case 1
      with 2 np d nd show ?thesis
        by (simp add: generate_coach_feedback_def)
    next
      case c: 2
      then have "\<not> is_power_message c" "\<not> is_decoupling_message c"
        by (cases c; simp)+
      with c 2 np d nd show ?thesis
        by (simp add: generate_coach_feedback_def)
    qed
  qed
qed

text \<open>
  With a power in the gap between 115 and 125, a cadence in the gap between 85 and 90
  and a decoupling that is NaN, the drift alert is the only message.
\<close>

theorem feedback_message_counts_witness:
  "length (filter is_decoupling_message
     (generate_coach_feedback (example_metrics\<lparr>avg_pwr := Fin 120\<rparr>))) = 1 \<and>
   generate_coach_feedback (example_metrics\<lparr>avg_pwr := Fin 120\<rparr>) = [Drift_Alert NaN]"
  using feedback_message_counts [of "example_metrics\<lparr>avg_pwr := Fin 120\<rparr>"]
  by (simp add: generate_coach_feedback_def power_check_def cadence_check_def
      decoupling_check_def example_metrics_def)

section \<open>The metrics engine on numeric frames\<close>

lemma bind_exn_Inr [simp]: "bind_exn (Inr x) f = f x"
  by (simp add: bind_exn_def)

lemma bind_exn_Inl [simp]: "bind_exn (Inl e) f = Inl e"
  by (simp add: bind_exn_def)

lemma select_by_predicate:
  "map fst (filter snd (zip rs (map P rs))) = filter P rs"
  by (induction rs) auto


lemma select_active:
  "select_rows df (map (\<lambda>c. case c of Num x \<Rightarrow> 10 < x | _ \<Rightarrow> False)
                     (map (\<lambda>r. r ''power'') (rows df)))
     = df\<lparr>rows := active_rows df\<rparr>"
proof -
  have "(\<lambda>c. case c of Num x \<Rightarrow> 10 < x | _ \<Rightarrow> False) \<circ> (\<lambda>r. r ''power'') = is_active"
    by (simp add: fun_eq_iff is_active_def)
  then have "map (\<lambda>c. case c of Num x \<Rightarrow> 10 < x | _ \<Rightarrow> False) (map (\<lambda>r. r ''power'') (rows df))
          = map is_active (rows df)"
    by (simp only: map_map)
  then show ?thesis
    by (simp only: select_rows_def active_rows_def select_by_predicate)
qed


lemma list_all_take_drop:
  "list_all P xs \<Longrightarrow> list_all P (take n xs) \<and> list_all P (drop n xs)"
  by (auto simp: list_all_iff dest: in_set_takeD in_set_dropD)





lemma has_numeric_active:
  "has_numeric df c \<Longrightarrow> list_all (\<lambda>r. numeric (r c)) (active_rows df)"
  by (simp add: has_numeric_def active_rows_def list_all_iff)

lemma series_gt_power:
  "has_numeric df ''power'' \<Longrightarrow>
   bind_exn (get_col df ''power'') (\<lambda>pw. bind_exn (series_gt pw 10) f)
     = f (map (\<lambda>c. case c of Num x \<Rightarrow> 10 < x | _ \<Rightarrow> False) (map (\<lambda>r. r ''power'') (rows df)))"
  by (simp add: has_numeric_def get_col_def series_gt_def list_all_iff)

lemma calculate_metrics_unfold:
  assumes "has_numeric df ''power''"
  shows "calculate_metrics df =
     (let active = df\<lparr>rows := active_rows df\<rparr>
       in if active_rows df = [] then Inr None
          else
            bind_exn (col_mean active ''power'') (\<lambda>avg_pwr'.
            bind_exn (bind_exn (bind_exn (get_col active ''power'') series_sq) series_mean) (\<lambda>msq.
            bind_exn (col_mean active ''heart_rate'') (\<lambda>avg_hr'.
            bind_exn (col_mean active ''cadence'') (\<lambda>avg_cad'.
            bind_exn (decoupling_of active) (\<lambda>decoupling'.
              Inr (Some \<lparr>duration = real (length (rows df)) / 60,
                         avg_pwr = avg_pwr',
                         norm_pwr = fl_sqrt msq,
                         avg_hr = avg_hr',
                         avg_cad = avg_cad',
                         ef = (if fl_less (Fin 0) avg_hr' then fl_div avg_pwr' avg_hr' else Fin 0),
                         decoupling = decoupling'\<rparr>)))))))"
proof -
  have c: "columns df \<noteq> []"
    using assms by (auto simp: has_numeric_def)
  show ?thesis
    unfolding calculate_metrics_def series_gt_power [OF assms] select_active
    using c by (simp add: is_empty_def Let_def)
qed

lemma calculate_metrics_None_iff:
  assumes "has_numeric df ''power''"
  shows "(calculate_metrics df = Inr None) = (active_rows df = [])"
  unfolding calculate_metrics_unfold [OF assms]
  by (simp add: bind_exn_def Let_def split: sum.splits)




lemma col_values_active_length:
  "\<forall>r\<in>set rs. is_active r \<Longrightarrow> length (col_values ''power'' rs) = length rs"
  by (induction rs) (auto simp: col_values_def is_active_def split: cell.splits)

lemma all_active_rows:
  "\<forall>r\<in>set (rows df). r ''power'' = Num p \<Longrightarrow> 10 < p \<Longrightarrow> active_rows df = rows df"
  by (auto simp: active_rows_def is_active_def filter_id_conv)

lemma has_numeric_present:
  "c \<in> set (columns df) \<Longrightarrow> \<forall>r\<in>set (rows df). \<exists>x. r c = Num x \<Longrightarrow> has_numeric df c"
  by (auto simp: has_numeric_def list_all_iff)

text \<open>The timestamps play no part in the metrics.\<close>

lemma get_col_retimed:
  "c \<noteq> ''timestamp'' \<Longrightarrow> get_col (retimed g df) c = get_col df c"
  by (simp add: get_col_def retimed_def)

lemma col_mean_retimed:
  "c \<noteq> ''timestamp'' \<Longrightarrow> col_mean (retimed g df) c = col_mean df c"
  by (simp add: col_mean_def get_col_retimed)

lemma select_map:
  "map fst (filter snd (zip (map f rs) ks)) = map f (map fst (filter snd (zip rs ks)))"
proof (induction rs arbitrary: ks)
  case Nil
  then show ?case by simp
next
  case (Cons r rs)
  then show ?case by (cases ks) simp_all
qed

lemma select_rows_retimed: "select_rows (retimed g df) ks = retimed g (select_rows df ks)"
  by (simp add: select_rows_def retimed_def select_map)

lemma iloc_retimed:
  "iloc_to (retimed g df) n = retimed g (iloc_to df n)"
  "iloc_from (retimed g df) n = retimed g (iloc_from df n)"
  by (simp_all add: iloc_to_def iloc_from_def retimed_def take_map drop_map)

lemma rows_retimed: "length (rows (retimed g df)) = length (rows df)"
  by (simp add: retimed_def)

lemma rows_retimed_empty: "(rows (retimed g df) = []) = (rows df = [])"
  by (simp add: retimed_def)

lemma is_empty_retimed: "is_empty (retimed g df) = is_empty df"
  by (simp add: is_empty_def retimed_def)

lemma decoupling_of_retimed: "decoupling_of (retimed g df) = decoupling_of df"
  by (simp add: decoupling_of_def iloc_retimed col_mean_retimed rows_retimed
      rows_retimed_empty Let_def cong: if_cong)

lemma calculate_metrics_retimed: "calculate_metrics (retimed g df) = calculate_metrics df"
  by (simp add: calculate_metrics_def get_col_retimed select_rows_retimed is_empty_retimed
      col_mean_retimed decoupling_of_retimed rows_retimed Let_def cong: if_cong)

text \<open>
  The frame without columns that \<^verbatim>\<open>parse_file\<close> returns after an error has no
  \<open>power\<close> column; the caller tests \<^verbatim>\<open>df.empty\<close> and does not pass it on.
\<close>

lemma calculate_metrics_empty_frame:
  "calculate_metrics empty_frame = Inl (KeyError [''power''])"
  by (simp add: calculate_metrics_def get_col_def empty_frame_def)

text \<open>
  Claim C3. On a frame with a numeric \<open>power\<close> column, \<^verbatim>\<open>calculate_metrics\<close>
  returns \<open>None\<close> exactly when no row is left after filtering to power above 10:
  in particular on a frame without rows, and on a frame where every power that is
  present is at most 10. (A frame without a \<open>power\<close> column is no sample sequence;
  there the function raises \<open>KeyError\<close>.) The filter compares the cells as they
  are, so the same holds in binary64 (lemma \<open>calculate_metrics_f64_absent\<close>).
\<close>

theorem calculate_metrics_absent_iff:
  "has_numeric df ''power'' \<Longrightarrow>
     ((calculate_metrics df = Inr None) = (filter is_active (rows df) = [])) \<and>
     (rows df = [] \<longrightarrow> calculate_metrics df = Inr None) \<and>
     ((\<forall>r\<in>set (rows df). \<forall>x. r ''power'' = Num x \<longrightarrow> x \<le> 10)
        \<longrightarrow> calculate_metrics df = Inr None)"
proof -
  assume n: "has_numeric df ''power''"
  have iff: "(calculate_metrics df = Inr None) = (filter is_active (rows df) = [])"
    using calculate_metrics_None_iff [OF n] by (simp add: active_rows_def)
  have idle: "filter is_active (rows df) = []"
    if "\<forall>r\<in>set (rows df). \<forall>x. r ''power'' = Num x \<longrightarrow> x \<le> 10"
    using that by (auto simp: filter_empty_conv is_active_def split: cell.splits)
  show ?thesis
    using iff idle by auto
qed

text \<open>A ride without an active sample, a ride without rows, and a ride with active samples.\<close>

theorem calculate_metrics_absent_iff_witness:
  "has_numeric idle_ride ''power'' \<and> filter is_active (rows idle_ride) = [] \<and>
   calculate_metrics idle_ride = Inr None \<and>
   calculate_metrics (idle_ride\<lparr>rows := []\<rparr>) = Inr None \<and>
   calculate_metrics mixed_ride \<noteq> Inr None"
proof -
  have a: "has_numeric idle_ride ''power''"
    by (simp add: has_numeric_def idle_ride_def ride_columns_def sample_def)
  have b: "has_numeric (idle_ride\<lparr>rows := []\<rparr>) ''power''"
    by (simp add: has_numeric_def idle_ride_def ride_columns_def)
  have c: "has_numeric mixed_ride ''power''"
    by (simp add: has_numeric_def mixed_ride_def ride_columns_def sample_def)
  have d: "\<forall>r\<in>set (rows idle_ride). \<forall>x. r ''power'' = Num x \<longrightarrow> x \<le> 10"
    by (simp add: idle_ride_def sample_def)
  have e: "filter is_active (rows mixed_ride) \<noteq> []"
    by (simp add: mixed_ride_def sample_def is_active_def)
  have f: "filter is_active (rows idle_ride) = []"
    by (simp add: idle_ride_def sample_def is_active_def)
  have g: "rows (idle_ride\<lparr>rows := []\<rparr>) = []"
    by simp
  from calculate_metrics_absent_iff [OF a] d
  have 1: "calculate_metrics idle_ride = Inr None"
    by (elim conjE) (erule mp)
  from calculate_metrics_absent_iff [OF b] g
  have 2: "calculate_metrics (idle_ride\<lparr>rows := []\<rparr>) = Inr None"
    by (elim conjE) (erule mp)
  from calculate_metrics_absent_iff [OF c, THEN conjunct1] e
  have 3: "calculate_metrics mixed_ride \<noteq> Inr None"
    by simp
  show ?thesis
    using a f 1 2 3 by (intro conjI)
qed



section \<open>Rounding to binary64: properties\<close>

text \<open>The exponent found by counting is the one that encloses the number.\<close>

lemma exponent_from_bounds:
  "2 powi e0 \<le> x \<Longrightarrow> x < 2 powi (e0 + int k) \<Longrightarrow>
   2 powi (exponent_from k e0 x) \<le> x \<and> x < 2 powi (exponent_from k e0 x + 1) \<and>
   e0 \<le> exponent_from k e0 x \<and> exponent_from k e0 x < e0 + int k"
proof (induction k arbitrary: e0)
  case 0
  then show ?case by simp
next
  case (Suc k)
  show ?case
  proof (cases "2 powi (e0 + 1) \<le> x")
    case True
    have "x < 2 powi (e0 + 1 + int k)"
      using Suc.prems(2) by (simp add: add.commute add.left_commute)
    from Suc.IH [OF True this] True show ?thesis
      by auto
  next
    case False
    with Suc.prems show ?thesis by auto
  qed
qed

lemma exponent_bounds:
  assumes "2 powi (- 1022) \<le> \<bar>x\<bar>" and "\<bar>x\<bar> < 2 powi 1024"
  shows "2 powi (exponent x) \<le> \<bar>x\<bar>" and "\<bar>x\<bar> < 2 powi (exponent x + 1)"
    and "- 1022 \<le> exponent x" and "exponent x < 1024"
  using exponent_from_bounds [of "- 1022" "\<bar>x\<bar>" 2046] assms
  by (simp_all add: exponent_def)

lemma exponent_eq:
  assumes "- 1022 \<le> e" and "e < 1024" and "2 powi e \<le> \<bar>x\<bar>" and "\<bar>x\<bar> < 2 powi (e + 1)"
  shows "exponent x = e"
proof -
  have lo: "(2::real) powi (- 1022) \<le> 2 powi e"
    using assms(1) by (intro power_int_increasing) auto
  have hi: "(2::real) powi (e + 1) \<le> 2 powi 1024"
    using assms(2) by (intro power_int_increasing) auto
  have b: "2 powi (- 1022) \<le> \<bar>x\<bar>" "\<bar>x\<bar> < 2 powi 1024"
    using lo hi assms(3,4) by linarith+
  note eb = exponent_bounds [OF b]
  have "exponent x < e + 1"
  proof (rule ccontr)
    assume "\<not> exponent x < e + 1"
    then have "(2::real) powi (e + 1) \<le> 2 powi (exponent x)"
      by (intro power_int_increasing) auto
    with eb(1) assms(4) show False by linarith
  qed
  moreover have "e < exponent x + 1"
  proof (rule ccontr)
    assume "\<not> e < exponent x + 1"
    then have "(2::real) powi (exponent x + 1) \<le> 2 powi e"
      by (intro power_int_increasing) auto
    with eb(2) assms(3) show False by linarith
  qed
  ultimately show ?thesis by linarith
qed

text \<open>Rounding to an integer.\<close>

lemma round_half_even_of_int [simp]: "round_half_even (of_int k) = k"
  by (simp add: round_half_even_def)

lemma round_half_even_zero [simp]: "round_half_even 0 = 0"
  using round_half_even_of_int [of 0] by simp

lemma round_half_even_eq:
  assumes "\<bar>y - of_int k\<bar> < 1 / 2 \<or> (\<bar>y - of_int k\<bar> = 1 / 2 \<and> even k)"
  shows "round_half_even y = k"
proof (cases "of_int k \<le> y")
  case True
  with assms have "\<lfloor>y\<rfloor> = k"
    by (intro floor_unique) (auto simp: abs_if split: if_splits)
  with assms True show ?thesis
    by (auto simp: round_half_even_def Let_def abs_if split: if_splits)
next
  case False
  with assms have "\<lfloor>y\<rfloor> = k - 1"
    by (intro floor_unique) (auto simp: abs_if split: if_splits)
  with assms False show ?thesis
    by (auto simp: round_half_even_def Let_def abs_if split: if_splits)
qed

lemma round_half_even_bounds: "\<lfloor>y\<rfloor> \<le> round_half_even y \<and> round_half_even y \<le> \<lfloor>y\<rfloor> + 1"
  by (simp add: round_half_even_def Let_def)

text \<open>
  How a rounding is computed: from the exponent \<open>e\<close> of the number and the integer
  \<open>k\<close> nearest to its quotient by \<open>2^(e-52)\<close>.
\<close>

lemma round_val_eval:
  assumes "- 1022 \<le> e" and "e < 1024" and "2 powi e \<le> \<bar>x\<bar>" and "\<bar>x\<bar> < 2 powi (e + 1)"
    and "\<bar>x / 2 powi (e - 52) - of_int k\<bar> < 1 / 2 \<or>
         (\<bar>x / 2 powi (e - 52) - of_int k\<bar> = 1 / 2 \<and> even k)"
    and "c = of_int k * 2 powi (e - 52)"
  shows "round_val x = c"
  using round_half_even_eq [OF assms(5)] assms(6) exponent_eq [OF assms(1-4)]
  by (simp add: round_val_def)

lemma round64_eval:
  assumes "- 1022 \<le> e" and "e < 1024" and "2 powi e \<le> \<bar>x\<bar>" and "\<bar>x\<bar> < 2 powi (e + 1)"
    and "\<bar>x / 2 powi (e - 52) - of_int k\<bar> < 1 / 2 \<or>
         (\<bar>x / 2 powi (e - 52) - of_int k\<bar> = 1 / 2 \<and> even k)"
    and "c = of_int k * 2 powi (e - 52)" and "\<bar>c\<bar> < 2 powi 1024"
  shows "round64 x = Fin c"
  using round_val_eval [OF assms(1-6)] assms(7)
  by (simp add: round64_def)

lemma round64_not_NaN [simp]: "round64 x \<noteq> NaN"
  by (simp add: round64_def Let_def)

lemma exponent_zero: "exponent 0 = - 1022"
  by (simp add: exponent_def eval_nat_numeral)

lemma round64_zero [simp]: "round64 0 = Fin 0"
  by (simp add: round64_def round_val_def)

text \<open>Whole numbers of magnitude below \<open>2^53\<close> are binary64 values.\<close>

lemma round_val_whole:
  assumes "\<bar>n\<bar> < 2 ^ 53"
  shows "round_val (of_int n) = of_int n"
proof (cases "n = 0")
  case True
  then show ?thesis by (simp add: round_val_def)
next
  case False
  let ?x = "of_int n :: real"
  have "1 \<le> \<bar>n\<bar>"
    using False by simp
  then have "(1::real) \<le> of_int \<bar>n\<bar>"
    by (simp only: of_int_1_le_iff)
  then have one: "1 \<le> \<bar>?x\<bar>"
    by simp
  have "(of_int \<bar>n\<bar> :: real) < of_int (2 ^ 53)"
    using assms by (simp only: of_int_less_iff)
  then have up: "\<bar>?x\<bar> < 2 ^ 53"
    by simp
  have lo: "(2::real) powi (- 1022) \<le> \<bar>?x\<bar>"
  proof -
    have "(2::real) powi (- 1022) \<le> 2 powi 0"
      by (intro power_int_increasing) auto
    with one show ?thesis by simp
  qed
  have hi: "\<bar>?x\<bar> < 2 powi 1024"
  proof -
    have "(2::real) powi 53 \<le> 2 powi 1024"
      by (intro power_int_increasing) auto
    with up show ?thesis by simp
  qed
  note eb = exponent_bounds [OF lo hi]
  have e0: "0 \<le> exponent ?x"
  proof (rule ccontr)
    assume "\<not> 0 \<le> exponent ?x"
    then have "(2::real) powi (exponent ?x + 1) \<le> 2 powi 0"
      by (intro power_int_increasing) auto
    with eb(2) one show False by simp
  qed
  have e52: "exponent ?x \<le> 52"
  proof (rule ccontr)
    assume "\<not> exponent ?x \<le> 52"
    then have "(2::real) powi 53 \<le> 2 powi (exponent ?x)"
      by (intro power_int_increasing) auto
    with eb(1) up show False by simp
  qed
  define j where "j = nat (52 - exponent ?x)"
  have q: "(2::real) powi (exponent ?x - 52) = inverse (2 ^ j)"
    using e52 by (simp add: power_int_def j_def power_one_over inverse_eq_divide)
  have "?x / 2 powi (exponent ?x - 52) = of_int (n * 2 ^ j)"
    by (simp add: q divide_inverse)
  then have "round_half_even (?x / 2 powi (exponent ?x - 52)) = n * 2 ^ j"
    by (simp only: round_half_even_of_int)
  then show ?thesis
    by (simp add: round_val_def q)
qed

lemma round64_whole:
  assumes "\<bar>n\<bar> < 2 ^ 53"
  shows "round64 (of_int n) = Fin (of_int n)"
proof -
  have "(of_int \<bar>n\<bar> :: real) < of_int (2 ^ 53)"
    using assms by (simp only: of_int_less_iff)
  then have "\<bar>of_int n :: real\<bar> < 2 ^ 53"
    by simp
  moreover have "(2::real) powi 53 \<le> 2 powi 1024"
    by (intro power_int_increasing) auto
  ultimately have "\<bar>of_int n :: real\<bar> < 2 powi 1024"
    by simp
  then show ?thesis
    by (simp add: round64_def round_val_whole [OF assms])
qed

lemma round64_nat:
  "n < 2 ^ 53 \<Longrightarrow> round64 (real n) = Fin (real n)"
  using round64_whole [of "int n"] by simp

lemma round64_numeral:
  "(numeral k :: int) < 2 ^ 53 \<Longrightarrow> round64 (numeral k) = Fin (numeral k)"
  using round64_whole [of "numeral k"] by simp

lemma round64_one: "round64 1 = Fin 1"
  using round64_whole [of 1] by simp

text \<open>A positive number of the normal range rounds to a positive finite number.\<close>

lemma round64_pos:
  assumes lo: "2 powi (- 1022) \<le> x" and hi: "x < 2 powi 1023"
  shows "\<exists>r. round64 x = Fin r \<and> 0 < r"
proof -
  have "(0::real) < 2 powi (- 1022)"
    by simp
  with lo have x0: "0 < x"
    by linarith
  then have ax: "\<bar>x\<bar> = x"
    by simp
  have "(2::real) powi 1023 \<le> 2 powi 1024"
    by (intro power_int_increasing) auto
  with hi have hi': "\<bar>x\<bar> < 2 powi 1024"
    using ax by linarith
  have lo': "2 powi (- 1022) \<le> \<bar>x\<bar>"
    using lo ax by linarith
  have eb: "2 powi (exponent x) \<le> x" "x < 2 powi (exponent x + 1)"
    using exponent_bounds(1,2) [OF lo' hi'] ax by linarith+
  define e where "e = exponent x"
  define q where "q = (2::real) powi (e - 52)"
  have q0: "0 < q"
    by (simp add: q_def)
  have e1023: "e < 1023"
  proof (rule ccontr)
    assume "\<not> e < 1023"
    then have "(2::real) powi 1023 \<le> 2 powi e"
      by (intro power_int_increasing) auto
    with eb(1) hi show False by (simp add: e_def)
  qed
  have s1: "(2::real) powi e = 2 ^ 52 * q"
    unfolding q_def by (simp add: power_int_diff)
  have s2: "(2::real) powi (e + 1) = 2 ^ 53 * q"
    unfolding q_def by (simp add: power_int_diff power_int_add)
  have y1: "2 ^ 52 \<le> x / q"
    using eb(1) q0 by (simp add: e_def [symmetric] s1 pos_le_divide_eq)
  have y2: "x / q < 2 ^ 53"
    using eb(2) q0 by (simp add: e_def [symmetric] s2 pos_divide_less_eq)
  have f1: "4503599627370496 \<le> \<lfloor>x / q\<rfloor>"
    using y1 by (simp add: le_floor_iff)
  have f2: "\<lfloor>x / q\<rfloor> < 9007199254740992"
    using y2 by (simp add: floor_less_iff)
  define k where "k = round_half_even (x / q)"
  have k1: "0 < k" and k2: "k \<le> 9007199254740992"
    using round_half_even_bounds [of "x / q"] f1 f2 unfolding k_def by linarith+
  have rv: "round_val x = of_int k * q"
    by (simp add: round_val_def k_def q_def e_def Let_def)
  have kpos: "(0::real) < of_int k"
    using k1 by simp
  have pos: "0 < of_int k * q"
    using kpos q0 by simp
  have "(of_int k :: real) \<le> of_int 9007199254740992"
    using k2 by (simp only: of_int_le_iff)
  then have "of_int k * q \<le> 2 ^ 53 * q"
    using q0 by simp
  also have "\<dots> = 2 powi (e + 1)"
    by (simp add: s2)
  also have "\<dots> \<le> 2 powi 1023"
    using e1023 by (intro power_int_increasing) auto
  also have "\<dots> < (2::real) powi 1024"
    by (intro power_int_strict_increasing) auto
  finally have fin: "of_int k * q < 2 powi 1024" .
  have "\<bar>of_int k * q\<bar> < 2 powi 1024"
    using pos fin by linarith
  then have "round64 x = Fin (of_int k * q)"
    unfolding round64_def rv Let_def by (simp only: not_le [symmetric] if_False)
  with pos show ?thesis
    by blast
qed

lemma ratio_rounds_positive:
  assumes "0 < p" and "p < 2 ^ 53" and "0 < h" and "h < 2 ^ 53"
  shows "\<exists>r. round64 (real p / real h) = Fin r \<and> 0 < r"
proof (rule round64_pos)
  have p1: "1 \<le> real p" and h1: "1 \<le> real h"
    using assms(1,3) by simp_all
  have "real h < real (2 ^ 53)"
    using assms(4) by (simp only: of_nat_less_iff)
  then have hb: "real h \<le> 2 ^ 53"
    by simp
  have "real p < real (2 ^ 53)"
    using assms(2) by (simp only: of_nat_less_iff)
  then have pb: "real p < 2 ^ 53"
    by simp
  have "1 / 2 ^ 53 \<le> 1 / real h"
    using hb h1 by (intro divide_left_mono) simp_all
  also have "\<dots> \<le> real p / real h"
    using p1 h1 by (intro divide_right_mono) simp_all
  finally have low: "1 / 2 ^ 53 \<le> real p / real h" .
  have "(2::real) powi (- 1022) \<le> 2 powi (- 53)"
    by (intro power_int_increasing) auto
  also have "\<dots> = 1 / 2 ^ 53"
    by (simp add: power_int_minus inverse_eq_divide)
  finally have "(2::real) powi (- 1022) \<le> 1 / 2 ^ 53" .
  with low show "2 powi (- 1022) \<le> real p / real h"
    by (rule order_trans [rotated])
  have "real p / real h \<le> real p / 1"
    using h1 p1 by (intro divide_left_mono) simp_all
  then have "real p / real h < 2 ^ 53"
    using pb by simp
  moreover have "(2::real) powi 53 \<le> 2 powi 1023"
    by (intro power_int_increasing) auto
  ultimately show "real p / real h < 2 powi 1023"
    by simp
qed

text \<open>Summation from left to right is exact on whole numbers.\<close>

lemma whole_sum_nonneg: "list_all is_whole vs \<Longrightarrow> 0 \<le> sum_list (map fl_val vs)"
proof (induction vs)
  case Nil
  then show ?case by simp
next
  case (Cons v vs)
  then show ?case by (cases v) simp_all
qed

lemma foldl_f64_add_whole:
  "list_all is_whole vs \<Longrightarrow> 0 \<le> a \<Longrightarrow> of_int \<lfloor>a\<rfloor> = a \<Longrightarrow>
   a + sum_list (map fl_val vs) < 2 ^ 53 \<Longrightarrow>
   foldl f64_add (Fin a) vs = Fin (a + sum_list (map fl_val vs))"
proof (induction vs arbitrary: a)
  case Nil
  then show ?case by simp
next
  case (Cons v vs)
  from Cons.prems(1) obtain x where v: "v = Fin x" and x: "0 \<le> x" "of_int \<lfloor>x\<rfloor> = x"
    and rest: "list_all is_whole vs"
    by (cases v) simp_all
  have nn: "0 \<le> sum_list (map fl_val vs)"
    using rest by (rule whole_sum_nonneg)
  have ax: "a + x = of_int (\<lfloor>a\<rfloor> + \<lfloor>x\<rfloor>)"
    by (simp only: of_int_add Cons.prems(3) x(2))
  have "a + x < 2 ^ 53"
    using Cons.prems(4) nn by (simp add: v)
  then have "(of_int (\<lfloor>a\<rfloor> + \<lfloor>x\<rfloor>) :: real) < of_int (2 ^ 53)"
    using ax by simp
  then have "\<lfloor>a\<rfloor> + \<lfloor>x\<rfloor> < 2 ^ 53"
    by (simp only: of_int_less_iff)
  moreover have "0 \<le> \<lfloor>a\<rfloor> + \<lfloor>x\<rfloor>"
    using Cons.prems(2) x(1) by simp
  ultimately have "\<bar>\<lfloor>a\<rfloor> + \<lfloor>x\<rfloor>\<bar> < 2 ^ 53"
    by simp
  then have step: "f64_add (Fin a) v = Fin (a + x)"
    using round64_whole [of "\<lfloor>a\<rfloor> + \<lfloor>x\<rfloor>"] ax by (simp add: f64_add_def v)
  have "foldl f64_add (Fin (a + x)) vs = Fin (a + x + sum_list (map fl_val vs))"
  proof (rule Cons.IH [OF rest])
    show "0 \<le> a + x" using Cons.prems(2) x(1) by simp
    show "of_int \<lfloor>a + x\<rfloor> = a + x" by (simp add: ax)
    show "a + x + sum_list (map fl_val vs) < 2 ^ 53"
      using Cons.prems(4) by (simp add: v add.assoc)
  qed
  then show ?case
    by (simp add: step [unfolded v] v add.assoc)
qed

lemma seq_sum_exact: "exact_on_whole seq_sum"
  unfolding exact_on_whole_def seq_sum_def
  using foldl_f64_add_whole [where a = 0] by simp

lemma factor_bounds:
  fixes k a b :: nat
  shows "0 < k \<Longrightarrow> k * a < b \<Longrightarrow> a < b"
    and "0 < a \<Longrightarrow> k * a < b \<Longrightarrow> k < b"
proof -
  show "0 < k \<Longrightarrow> k * a < b \<Longrightarrow> a < b"
    by (cases k) auto
  show "0 < a \<Longrightarrow> k * a < b \<Longrightarrow> k < b"
    by (cases a) auto
qed

lemma replicate_three_four:
  "replicate 3 v = [v, v, v]" "replicate 4 v = [v, v, v, v]"
  by (simp_all add: eval_nat_numeral)

section \<open>The metrics engine in binary64 on numeric frames\<close>

lemma nanmean_present:
  assumes "list_all (\<lambda>v. v \<noteq> NaN) vs" and "vs \<noteq> []"
  shows "nanmean np_sum vs = f64_div (np_sum vs) (round64 (real (length vs)))"
proof -
  have 1: "map (\<lambda>v. if v = NaN then Fin 0 else v) vs = vs"
    using assms(1) by (induction vs) simp_all
  have 2: "filter (\<lambda>v. v \<noteq> NaN) vs = vs"
    using assms(1) by (induction vs) simp_all
  show ?thesis
    using assms(2) by (simp add: nanmean_def 1 2)
qed

lemma col_mean_f64_numeric:
  assumes "c \<in> set (columns df)" and "list_all (\<lambda>r. numeric (r c)) rs"
  shows "col_mean_f64 np_sum (df\<lparr>rows := rs\<rparr>) c
           = Inr (nanmean np_sum (map (\<lambda>r. to_f64 (r c)) rs))"
proof -
  have "list_all numeric (map (\<lambda>r. r c) rs)"
    using assms(2) by (simp add: list_all_iff)
  then show ?thesis
    using assms(1) by (simp add: col_mean_f64_def get_col_def series_mean_f64_def comp_def)
qed

lemma decoupling_of_f64_numeric:
  assumes "''power'' \<in> set (columns df)" "''heart_rate'' \<in> set (columns df)"
    and "list_all (\<lambda>r. numeric (r ''power'')) rs"
    and "list_all (\<lambda>r. numeric (r ''heart_rate'')) rs"
  shows "decoupling_of_f64 np_sum (df\<lparr>rows := rs\<rparr>) = Inr (halves_decoupling_f64 np_sum rs)"
proof -
  let ?m = "length rs div 2"
  have t: "list_all (\<lambda>r. numeric (r ''power'')) (take ?m rs)"
      "list_all (\<lambda>r. numeric (r ''heart_rate'')) (take ?m rs)"
      "list_all (\<lambda>r. numeric (r ''power'')) (drop ?m rs)"
      "list_all (\<lambda>r. numeric (r ''heart_rate'')) (drop ?m rs)"
    using assms(3,4) list_all_take_drop by blast+
  note m = col_mean_f64_numeric [OF assms(1) t(1)] col_mean_f64_numeric [OF assms(2) t(2)]
    col_mean_f64_numeric [OF assms(1) t(3)] col_mean_f64_numeric [OF assms(2) t(4)]
  show ?thesis
    using m by (simp add: decoupling_of_f64_def halves_decoupling_f64_def iloc_to_def
        iloc_from_def Let_def)
qed

lemma squares_numeric:
  assumes "''power'' \<in> set (columns df)" and "list_all (\<lambda>r. numeric (r ''power'')) rs"
  shows "bind_exn (get_col (df\<lparr>rows := rs\<rparr>) ''power'') (series_sq_f64 dt)
           = Inr (map (\<lambda>r. case r ''power'' of Num x \<Rightarrow> pow2 dt x | _ \<Rightarrow> NaN) rs)"
proof -
  have "list_all numeric (map (\<lambda>r. r ''power'') rs)"
    using assms(2) by (simp add: list_all_iff)
  then show ?thesis
    using assms(1) by (simp add: get_col_def series_sq_f64_def comp_def)
qed

lemma calculate_metrics_f64_unfold:
  assumes "has_numeric df ''power''"
  shows "calculate_metrics_f64 dt np_sum df =
     (let active = df\<lparr>rows := active_rows df\<rparr>
       in if active_rows df = [] then Inr None
          else
            bind_exn (col_mean_f64 np_sum active ''power'') (\<lambda>avg_pwr'.
            bind_exn (bind_exn (get_col active ''power'') (series_sq_f64 dt)) (\<lambda>squares.
            bind_exn (col_mean_f64 np_sum active ''heart_rate'') (\<lambda>avg_hr'.
            bind_exn (col_mean_f64 np_sum active ''cadence'') (\<lambda>avg_cad'.
            bind_exn (decoupling_of_f64 np_sum active) (\<lambda>decoupling'.
              Inr (Some \<lparr>duration = round_val (real (length (rows df)) / 60),
                         avg_pwr = avg_pwr',
                         norm_pwr = f64_sqrt (nanmean np_sum squares),
                         avg_hr = avg_hr',
                         avg_cad = avg_cad',
                         ef = (if fl_less (Fin 0) avg_hr' then f64_div avg_pwr' avg_hr'
                               else Fin 0),
                         decoupling = decoupling'\<rparr>)))))))"
proof -
  have c: "columns df \<noteq> []"
    using assms by (auto simp: has_numeric_def)
  show ?thesis
    unfolding calculate_metrics_f64_def series_gt_power [OF assms] select_active
    using c by (simp add: is_empty_def Let_def)
qed

lemma calculate_metrics_f64_numeric:
  assumes p: "has_numeric df ''power''" and h: "has_numeric df ''heart_rate''"
    and c: "has_numeric df ''cadence''" and a: "active_rows df \<noteq> []"
  shows "calculate_metrics_f64 dt np_sum df =
     Inr (Some \<lparr>duration = round_val (real (length (rows df)) / 60),
                avg_pwr = nanmean np_sum (map (\<lambda>r. to_f64 (r ''power'')) (active_rows df)),
                norm_pwr = f64_sqrt (nanmean np_sum
                  (map (\<lambda>r. case r ''power'' of Num x \<Rightarrow> pow2 dt x | _ \<Rightarrow> NaN)
                     (active_rows df))),
                avg_hr = nanmean np_sum (map (\<lambda>r. to_f64 (r ''heart_rate'')) (active_rows df)),
                avg_cad = nanmean np_sum (map (\<lambda>r. to_f64 (r ''cadence'')) (active_rows df)),
                ef = (if fl_less (Fin 0)
                           (nanmean np_sum (map (\<lambda>r. to_f64 (r ''heart_rate'')) (active_rows df)))
                      then f64_div
                             (nanmean np_sum (map (\<lambda>r. to_f64 (r ''power'')) (active_rows df)))
                             (nanmean np_sum (map (\<lambda>r. to_f64 (r ''heart_rate'')) (active_rows df)))
                      else Fin 0),
                decoupling = halves_decoupling_f64 np_sum (active_rows df)\<rparr>)"
proof -
  have cols: "''power'' \<in> set (columns df)" "''heart_rate'' \<in> set (columns df)"
      "''cadence'' \<in> set (columns df)"
    using p h c by (simp_all add: has_numeric_def)
  note n = has_numeric_active [OF p] has_numeric_active [OF h] has_numeric_active [OF c]
  show ?thesis
    unfolding calculate_metrics_f64_unfold [OF p]
    using a
    by (simp add: Let_def col_mean_f64_numeric [OF cols(1) n(1)]
        col_mean_f64_numeric [OF cols(2) n(2)] col_mean_f64_numeric [OF cols(3) n(3)]
        squares_numeric [OF cols(1) n(1)]
        decoupling_of_f64_numeric [OF cols(1) cols(2) n(1) n(2)])
qed

text \<open>The result is \<open>None\<close> on the same frames as over the reals.\<close>

lemma calculate_metrics_f64_absent:
  assumes "has_numeric df ''power''"
  shows "(calculate_metrics_f64 dt np_sum df = Inr None) = (active_rows df = [])"
  unfolding calculate_metrics_f64_unfold [OF assms]
  by (simp add: bind_exn_def Let_def split: sum.splits)

text \<open>The timestamps play no part.\<close>

lemma col_mean_f64_retimed:
  "c \<noteq> ''timestamp'' \<Longrightarrow> col_mean_f64 np_sum (retimed g df) c = col_mean_f64 np_sum df c"
  by (simp add: col_mean_f64_def get_col_retimed)

lemma decoupling_of_f64_retimed:
  "decoupling_of_f64 np_sum (retimed g df) = decoupling_of_f64 np_sum df"
  by (simp add: decoupling_of_f64_def iloc_retimed col_mean_f64_retimed rows_retimed
      rows_retimed_empty Let_def cong: if_cong)

lemma calculate_metrics_f64_retimed:
  "calculate_metrics_f64 dt np_sum (retimed g df) = calculate_metrics_f64 dt np_sum df"
  by (simp add: calculate_metrics_f64_def get_col_retimed select_rows_retimed is_empty_retimed
      col_mean_f64_retimed decoupling_of_f64_retimed rows_retimed Let_def cong: if_cong)

text \<open>
  Squares: below 3037000500 the \<open>int64\<close> square does not wrap, and converted to
  \<open>float64\<close> it is the \<open>float64\<close> square.
\<close>

lemma wrap64_small: "0 \<le> n \<Longrightarrow> n < 2 ^ 63 \<Longrightarrow> wrap64 n = n"
  by (simp add: wrap64_def)

lemma small_int_square:
  assumes "\<bar>n :: int\<bar> < 3037000500"
  shows "n * n < 2 ^ 63"
proof -
  have "\<bar>n\<bar> \<le> 3037000499"
    using assms by simp
  then have "\<bar>n\<bar> * \<bar>n\<bar> \<le> 3037000499 * 3037000499"
    by (intro mult_mono) simp_all
  then show ?thesis
    by (simp add: abs_mult_self_eq)
qed

lemma pow2_small:
  assumes "small_int x"
  shows "pow2 Int64 x = sq64 x"
proof -
  define n where "n = \<lfloor>x\<rfloor>"
  have x: "x = of_int n"
    using assms by (simp only: small_int_def n_def)
  have "(of_int \<bar>n\<bar> :: real) < of_int 3037000500"
    using assms x by (simp add: small_int_def)
  then have b: "\<bar>n\<bar> < 3037000500"
    by (simp only: of_int_less_iff)
  then have b53: "\<bar>n\<bar> < 2 ^ 53"
    by simp
  have w: "wrap64 (n * n) = n * n"
    using small_int_square [OF b] by (intro wrap64_small) simp_all
  have fl: "\<lfloor>x\<rfloor> = n"
    by (simp add: n_def)
  have "pow2 Int64 x = round64 (of_int (n * n))"
    by (simp only: pow2.simps fl w)
  moreover have "sq64 x = round64 (of_int (n * n))"
    unfolding x sq64_def Let_def round64_whole [OF b53] by (simp add: f64_mul_def)
  ultimately show ?thesis
    by simp
qed

lemma f64_mul_self_not_NaN: "f64_mul (round64 x) (round64 x) \<noteq> NaN"
  by (cases "round64 x") (simp_all add: f64_mul_def)

lemma sq64_not_NaN [simp]: "sq64 x \<noteq> NaN"
  by (simp add: sq64_def Let_def f64_mul_self_not_NaN)

lemma active_power_cells:
  "\<forall>r\<in>set rs. is_active r \<Longrightarrow>
   map (\<lambda>r. to_f64 (r ''power'')) rs = map round64 (col_values ''power'' rs)"
  by (induction rs) (auto simp: col_values_def is_active_def split: cell.splits)

lemma active_power_squares:
  "\<forall>r\<in>set rs. is_active r \<Longrightarrow>
   map (\<lambda>r. case r ''power'' of Num x \<Rightarrow> f x | _ \<Rightarrow> NaN) rs = map f (col_values ''power'' rs)"
  by (induction rs) (auto simp: col_values_def is_active_def split: cell.splits)

text \<open>
  Claim C4, as amended. In binary64, whatever summation \<open>np_sum\<close> the mean uses: on a
  frame whose \<open>power\<close>, \<open>heart_rate\<close> and \<open>cadence\<close> columns are numeric and that
  has an active sample - the active powers whole numbers below 3037000500 if the
  \<open>power\<close> column is \<open>int64\<close> - \<^verbatim>\<open>calculate_metrics\<close> returns metrics. The
  duration is the number of all rows, active or not, divided by 60 (rounded), and
  the metrics stay the same when the timestamps are replaced by any others. The
  average power is the sum of the active powers divided by the number of active
  rows, the normalized-power proxy the square root of the sum of their squares
  divided by that number, every operation rounded. The average heart rate and the
  average cadence are the means over the active rows of the values that are present
  (NaN when none is).
\<close>

theorem calculate_metrics_statistics:
  assumes "has_numeric df ''power''" and "has_numeric df ''heart_rate''"
    and "has_numeric df ''cadence''" and "active_rows df \<noteq> []"
    and "dt = Int64 \<longrightarrow> list_all small_int (col_values ''power'' (active_rows df))"
  shows "\<exists>m. calculate_metrics_f64 dt np_sum df = Inr (Some m) \<and>
     duration m = round_val (real (length (rows df)) / 60) \<and>
     avg_pwr m = f64_div (np_sum (map round64 (col_values ''power'' (active_rows df))))
                         (round64 (real (length (active_rows df)))) \<and>
     norm_pwr m = f64_sqrt (f64_div (np_sum (map sq64 (col_values ''power'' (active_rows df))))
                                    (round64 (real (length (active_rows df))))) \<and>
     avg_hr m = nanmean np_sum (map (\<lambda>r. to_f64 (r ''heart_rate'')) (active_rows df)) \<and>
     avg_cad m = nanmean np_sum (map (\<lambda>r. to_f64 (r ''cadence'')) (active_rows df)) \<and>
     calculate_metrics_f64 dt np_sum (retimed g df) = Inr (Some m)"
proof -
  let ?A = "active_rows df"
  let ?pw = "col_values ''power'' ?A"
  have act: "\<forall>r\<in>set ?A. is_active r"
    by (simp add: active_rows_def)
  have len: "length ?pw = length ?A"
    using act by (rule col_values_active_length)
  then have ne: "?pw \<noteq> []"
    using assms(4) by auto
  have avg: "nanmean np_sum (map (\<lambda>r. to_f64 (r ''power'')) ?A)
      = f64_div (np_sum (map round64 ?pw)) (round64 (real (length ?A)))"
    unfolding active_power_cells [OF act]
    using ne len by (subst nanmean_present) (simp_all add: list_all_iff)
  have "map (pow2 dt) ?pw = map sq64 ?pw"
  proof (cases dt)
    case Int64
    with assms(5) have "\<forall>x\<in>set ?pw. small_int x"
      by (simp add: list_all_iff)
    then show ?thesis
      unfolding Int64 by (simp add: pow2_small del: pow2.simps)
  next
    case Float64
    then show ?thesis
      by (simp add: fun_eq_iff)
  qed
  then have sq: "map (\<lambda>r. case r ''power'' of Num x \<Rightarrow> pow2 dt x | _ \<Rightarrow> NaN) ?A = map sq64 ?pw"
    by (simp only: active_power_squares [OF act])
  have rms: "nanmean np_sum (map (\<lambda>r. case r ''power'' of Num x \<Rightarrow> pow2 dt x | _ \<Rightarrow> NaN) ?A)
      = f64_div (np_sum (map sq64 ?pw)) (round64 (real (length ?A)))"
    unfolding sq
    using ne len by (subst nanmean_present) (simp_all add: list_all_iff)
  show ?thesis
    unfolding calculate_metrics_f64_retimed calculate_metrics_f64_numeric [OF assms(1-4)]
    by (simp add: avg rms)
qed

text \<open>
  Four rows with an \<open>int64\<close> power, the second and third active, one of them
  without a heart rate: the duration counts four rows, the averages two, the heart
  rate one.
\<close>

theorem calculate_metrics_statistics_witness:
  "\<exists>m. calculate_metrics_f64 Int64 seq_sum mixed_ride = Inr (Some m) \<and>
       duration m = round_val (4 / 60) \<and>
       avg_pwr m = Fin 150 \<and> norm_pwr m = f64_sqrt (Fin 25000) \<and>
       avg_hr m = Fin 120 \<and> avg_cad m = Fin 90 \<and>
       calculate_metrics_f64 Int64 seq_sum (retimed (\<lambda>r. NA) mixed_ride) = Inr (Some m)"
proof -
  have n: "has_numeric mixed_ride ''power''" "has_numeric mixed_ride ''heart_rate''"
      "has_numeric mixed_ride ''cadence''"
    by (simp_all add: has_numeric_def mixed_ride_def ride_columns_def sample_def)
  have a: "active_rows mixed_ride =
      [sample (Time 1) (Num 120) (Num 85) (Num 200), sample (Time 2) NA (Num 95) (Num 100)]"
    by (simp add: active_rows_def mixed_ride_def sample_def is_active_def)
  then have ne: "active_rows mixed_ride \<noteq> []"
    by simp
  have v: "col_values ''power'' (active_rows mixed_ride) = [200, 100]"
    unfolding a by (simp add: col_values_def sample_def)
  have s: "Int64 = Int64 \<longrightarrow> list_all small_int (col_values ''power'' (active_rows mixed_ride))"
    unfolding v by (simp add: small_int_def)
  have l: "length (rows mixed_ride) = 4" "length (active_rows mixed_ride) = 2"
    unfolding a by (simp_all add: mixed_ride_def)
  have c: "map (\<lambda>r. to_f64 (r ''heart_rate'')) (active_rows mixed_ride) = [Fin 120, NaN]"
      "map (\<lambda>r. to_f64 (r ''cadence'')) (active_rows mixed_ride) = [Fin 85, Fin 95]"
    unfolding a by (simp_all add: sample_def round64_numeral)
  show ?thesis
    using calculate_metrics_statistics [OF n ne s, of seq_sum "\<lambda>r. NA"]
    unfolding v l c
    by (simp add: nanmean_def seq_sum_def f64_add_def f64_div_def f64_mul_def sq64_def
        round64_numeral round64_one)
qed

text \<open>
  The claim as it was stated fails on an \<open>int64\<close> power column from 3037000500 on.
  For the single sample of power 4000000000 the square wraps to
  \<open>-2446744073709551616\<close>: the average power is 4000000000, and the proxy, the square
  root of a negative mean, is NaN.
\<close>

theorem int64_square_wraps:
  "has_numeric gigawatt_ride ''power'' \<and> has_numeric gigawatt_ride ''heart_rate'' \<and>
   has_numeric gigawatt_ride ''cadence'' \<and>
   col_values ''power'' (active_rows gigawatt_ride) = [4000000000] \<and>
   wrap64 (4000000000 * 4000000000) = - 2446744073709551616 \<and>
   (\<exists>m. calculate_metrics_f64 Int64 seq_sum gigawatt_ride = Inr (Some m) \<and>
        avg_pwr m = Fin 4000000000 \<and> norm_pwr m = NaN)"
proof -
  have n: "has_numeric gigawatt_ride ''power''" "has_numeric gigawatt_ride ''heart_rate''"
      "has_numeric gigawatt_ride ''cadence''"
    by (simp_all add: has_numeric_def gigawatt_ride_def ride_columns_def sample_def)
  have a: "active_rows gigawatt_ride = [sample (Time 0) (Num 120) (Num 85) (Num 4000000000)]"
    by (simp add: active_rows_def gigawatt_ride_def sample_def is_active_def)
  then have ne: "active_rows gigawatt_ride \<noteq> []"
    by simp
  have v: "col_values ''power'' (active_rows gigawatt_ride) = [4000000000]"
    unfolding a by (simp add: col_values_def sample_def)
  have w: "wrap64 (4000000000 * 4000000000) = - 2446744073709551616"
    by (simp add: wrap64_def)
  have r: "round64 (- 2446744073709551616) = Fin (- 2446744073709551616)"
    by (rule round64_eval [where e = 61 and k = "- 4778797018963968"]) simp_all
  have sq: "pow2 Int64 4000000000 = Fin (- 2446744073709551616)"
    using w r by simp
  have m: "nanmean seq_sum [Fin (- 2446744073709551616)] = Fin (- 2446744073709551616)"
    by (simp add: nanmean_def seq_sum_def f64_add_def f64_div_def round64_one r)
  have p: "nanmean seq_sum [Fin 4000000000] = Fin 4000000000"
    by (simp add: nanmean_def seq_sum_def f64_add_def f64_div_def round64_one round64_numeral)
  have "\<exists>m. calculate_metrics_f64 Int64 seq_sum gigawatt_ride = Inr (Some m) \<and>
        avg_pwr m = Fin 4000000000 \<and> norm_pwr m = NaN"
    unfolding calculate_metrics_f64_numeric [OF n ne] a
    by (simp add: sample_def sq m p f64_sqrt_def round64_numeral del: pow2.simps)
  then show ?thesis
    using n v w by (intro conjI)
qed

text \<open>The halves of a ride whose cells are constant within each half.\<close>

lemma constant_cells:
  "\<forall>r\<in>set rs. r c = Num x \<Longrightarrow> round64 x = v \<Longrightarrow>
   map (\<lambda>r. to_f64 (r c)) rs = replicate (length rs) v"
  by (induction rs) simp_all

lemma halves_cells:
  assumes "\<forall>r\<in>set (take (length rs div 2) rs). r ''power'' = Num x1"
    and "\<forall>r\<in>set (take (length rs div 2) rs). r ''heart_rate'' = Num z1"
    and "\<forall>r\<in>set (drop (length rs div 2) rs). r ''power'' = Num x2"
    and "\<forall>r\<in>set (drop (length rs div 2) rs). r ''heart_rate'' = Num z2"
    and "round64 x1 = vx1" and "round64 z1 = vz1" and "round64 x2 = vx2" and "round64 z2 = vz2"
  shows "halves_decoupling_f64 np_sum rs =
     (let n1 = length rs div 2;
          n2 = length rs - length rs div 2;
          ef1 = f64_div (nanmean np_sum (replicate n1 vx1)) (nanmean np_sum (replicate n1 vz1));
          ef2 = f64_div (nanmean np_sum (replicate n2 vx2)) (nanmean np_sum (replicate n2 vz2))
      in if n1 = 0 \<or> n2 = 0 then Fin 0
         else f64_mul (f64_div (f64_sub ef1 ef2) ef1) (Fin 100))"
proof -
  let ?m = "length rs div 2"
  note cells = constant_cells [OF assms(1) assms(5)] constant_cells [OF assms(2) assms(6)]
    constant_cells [OF assms(3) assms(7)] constant_cells [OF assms(4) assms(8)]
  have l: "length (take ?m rs) = ?m" "length (drop ?m rs) = length rs - ?m"
    by simp_all
  have e: "(take ?m rs = [] \<or> drop ?m rs = []) = (?m = 0 \<or> length rs - ?m = 0)"
    by auto
  show ?thesis
    unfolding halves_decoupling_f64_def Let_def cells l e ..
qed

lemma halves_constant:
  assumes "\<forall>r\<in>set rs. r ''power'' = Num x" and "\<forall>r\<in>set rs. r ''heart_rate'' = Num z"
    and "round64 x = vx" and "round64 z = vz"
  shows "halves_decoupling_f64 np_sum rs =
     (let n1 = length rs div 2;
          n2 = length rs - length rs div 2;
          ef1 = f64_div (nanmean np_sum (replicate n1 vx)) (nanmean np_sum (replicate n1 vz));
          ef2 = f64_div (nanmean np_sum (replicate n2 vx)) (nanmean np_sum (replicate n2 vz))
      in if n1 = 0 \<or> n2 = 0 then Fin 0
         else f64_mul (f64_div (f64_sub ef1 ef2) ef1) (Fin 100))"
proof -
  let ?m = "length rs div 2"
  have t: "\<forall>r\<in>set (take ?m rs). r ''power'' = Num x"
      "\<forall>r\<in>set (take ?m rs). r ''heart_rate'' = Num z"
    using assms(1,2) by (auto dest: in_set_takeD)
  have d: "\<forall>r\<in>set (drop ?m rs). r ''power'' = Num x"
      "\<forall>r\<in>set (drop ?m rs). r ''heart_rate'' = Num z"
    using assms(1,2) by (auto dest: in_set_dropD)
  show ?thesis
    by (rule halves_cells [OF t d assms(3,4,3,4)])
qed

lemma nanmean_constant_whole:
  assumes "exact_on_whole np_sum" and "0 < k" and "k * a < 2 ^ 53" and "0 < a"
  shows "nanmean np_sum (replicate k (Fin (real a))) = Fin (real a)"
proof -
  let ?vs = "replicate k (Fin (real a))"
  have k53: "k < 2 ^ 53"
    using assms(4,3) by (rule factor_bounds(2))
  have a53: "a < 2 ^ 53"
    using assms(2,3) by (rule factor_bounds(1))
  have w: "list_all is_whole ?vs"
    by (simp add: list_all_iff)
  have s: "sum_list (map fl_val ?vs) = real (k * a)"
    by (simp add: sum_list_replicate)
  have "real (k * a) < real (2 ^ 53)"
    using assms(3) by (simp only: of_nat_less_iff)
  then have "sum_list (map fl_val ?vs) < 2 ^ 53"
    unfolding s by simp
  with assms(1) w have "np_sum ?vs = Fin (sum_list (map fl_val ?vs))"
    unfolding exact_on_whole_def by blast
  then have sum: "np_sum ?vs = Fin (real (k * a))"
    by (simp only: s)
  have "nanmean np_sum ?vs = f64_div (np_sum ?vs) (round64 (real (length ?vs)))"
    using assms(2) by (intro nanmean_present) (simp_all add: list_all_iff)
  also have "\<dots> = f64_div (Fin (real (k * a))) (Fin (real k))"
    by (simp add: sum round64_nat [OF k53])
  also have "\<dots> = round64 (real a)"
    using assms(2) by (simp add: f64_div_def)
  also have "\<dots> = Fin (real a)"
    by (rule round64_nat [OF a53])
  finally show ?thesis .
qed

text \<open>
  The two-minute example of the specification in binary64: the average power is
  150, the duration 2, and the decoupling 6.666666666666663, the fraction below.
\<close>

lemma two_minute_decoupling:
  "f64_mul (f64_div (f64_sub (f64_div (Fin 150) (Fin 140)) (f64_div (Fin 150) (Fin 150)))
                    (f64_div (Fin 150) (Fin 140))) (Fin 100)
     = Fin (7505999378950823 / 1125899906842624)"
proof -
  have "round64 (150 / 140)
      = Fin (4825285315039817 / 4503599627370496)"
    by (rule round64_eval [where e = 0 and k = 4825285315039817]) simp_all
  then have s1: "f64_div (Fin 150) (Fin 140)
      = Fin (4825285315039817 / 4503599627370496)"
    by (simp add: f64_div_def)
  have "round64 (150 / 150)
      = Fin 1"
    by (rule round64_eval [where e = 0 and k = 4503599627370496]) simp_all
  then have s2: "f64_div (Fin 150) (Fin 150)
      = Fin 1"
    by (simp add: f64_div_def)
  have "round64 ((4825285315039817 / 4503599627370496) - 1)
      = Fin (321685687669321 / 4503599627370496)"
    by (rule round64_eval [where e = "- 4" and k = 5146971002709136]) simp_all
  then have s3: "f64_sub (Fin (4825285315039817 / 4503599627370496)) (Fin 1)
      = Fin (321685687669321 / 4503599627370496)"
    by (simp add: f64_sub_def)
  have "round64 ((321685687669321 / 4503599627370496) / (4825285315039817 / 4503599627370496))
      = Fin (4803839602528527 / 72057594037927936)"
    by (rule round64_eval [where e = "- 4" and k = 4803839602528527]) simp_all
  then have s4: "f64_div (Fin (321685687669321 / 4503599627370496)) (Fin (4825285315039817 / 4503599627370496))
      = Fin (4803839602528527 / 72057594037927936)"
    by (simp add: f64_div_def)
  have "round64 ((4803839602528527 / 72057594037927936) * 100)
      = Fin (7505999378950823 / 1125899906842624)"
    by (rule round64_eval [where e = 2 and k = 7505999378950823]) simp_all
  then have s5: "f64_mul (Fin (4803839602528527 / 72057594037927936)) (Fin 100)
      = Fin (7505999378950823 / 1125899906842624)"
    by (simp add: f64_mul_def)
  show ?thesis
    unfolding s1 s2 s3 s4 s5 ..
qed

lemma two_minute_example_f64:
  assumes ex: "exact_on_whole np_sum"
    and cols: "''power'' \<in> set (columns df)" "''heart_rate'' \<in> set (columns df)"
      "''cadence'' \<in> set (columns df)"
    and rs: "rows df = xs @ ys" "length xs = 60" "length ys = 60"
    and first: "\<forall>r\<in>set xs. r ''power'' = Num 150 \<and> r ''heart_rate'' = Num 140"
    and last: "\<forall>r\<in>set ys. r ''power'' = Num 150 \<and> r ''heart_rate'' = Num 150"
    and cad: "\<forall>r\<in>set (rows df). numeric (r ''cadence'')"
  shows "\<exists>m. calculate_metrics_f64 dt np_sum df = Inr (Some m) \<and>
     avg_pwr m = Fin 150 \<and> duration m = 2 \<and>
     decoupling m = Fin (7505999378950823 / 1125899906842624) \<and>
     \<bar>7505999378950823 / 1125899906842624 - 6.67\<bar> < (0.01 :: real)"
proof -
  have pw: "\<forall>r\<in>set (rows df). r ''power'' = Num 150"
    using rs(1) first last by auto
  have act: "active_rows df = xs @ ys"
    using all_active_rows [OF pw] rs(1) by simp
  have np: "has_numeric df ''power''"
    using cols(1) pw by (auto intro: has_numeric_present)
  have nh: "has_numeric df ''heart_rate''"
    unfolding has_numeric_def list_all_iff
    using cols(2) rs(1) first last by fastforce
  have nc: "has_numeric df ''cadence''"
    using cols(3) cad by (simp add: has_numeric_def list_all_iff)
  have ne: "active_rows df \<noteq> []"
    using act rs(2) by auto
  have half: "length (xs @ ys) div 2 = 60" "length (xs @ ys) - length (xs @ ys) div 2 = 60"
    using rs(2,3) by simp_all
  have parts: "take (length (xs @ ys) div 2) (xs @ ys) = xs"
      "drop (length (xs @ ys) div 2) (xs @ ys) = ys"
    unfolding half using rs(2) by simp_all
  have fx: "\<forall>r\<in>set (take (length (xs @ ys) div 2) (xs @ ys)). r ''power'' = Num 150"
      "\<forall>r\<in>set (take (length (xs @ ys) div 2) (xs @ ys)). r ''heart_rate'' = Num 140"
    unfolding parts using first by blast+
  have fy: "\<forall>r\<in>set (drop (length (xs @ ys) div 2) (xs @ ys)). r ''power'' = Num 150"
      "\<forall>r\<in>set (drop (length (xs @ ys) div 2) (xs @ ys)). r ''heart_rate'' = Num 150"
    unfolding parts using last by blast+
  have r: "round64 150 = Fin 150" "round64 140 = Fin 140"
    by (simp_all add: round64_numeral)
  have m: "nanmean np_sum (replicate 60 (Fin 150)) = Fin 150"
      "nanmean np_sum (replicate 60 (Fin 140)) = Fin 140"
      "nanmean np_sum (replicate 120 (Fin 150)) = Fin 150"
    using nanmean_constant_whole [OF ex, of 60 150] nanmean_constant_whole [OF ex, of 60 140]
      nanmean_constant_whole [OF ex, of 120 150]
    by simp_all
  have len: "length (xs @ ys) = 120"
    using rs(2,3) by simp
  have dec: "halves_decoupling_f64 np_sum (xs @ ys) = Fin (7505999378950823 / 1125899906842624)"
    unfolding halves_cells [OF fx fy r(1) r(2) r(1) r(1)] len
    using two_minute_decoupling by (simp add: m)
  have fxy: "\<forall>r\<in>set (xs @ ys). r ''power'' = Num 150"
    using pw rs(1) by simp
  have avg: "nanmean np_sum (map (\<lambda>r. to_f64 (r ''power'')) (xs @ ys)) = Fin 150"
    unfolding constant_cells [OF fxy r(1)] using rs(2,3) by (simp add: m)
  have dur: "round_val 2 = 2"
    using round_val_whole [of 2] by simp
  show ?thesis
    unfolding calculate_metrics_f64_numeric [OF np nh nc ne] act avg dec
    using rs by (simp add: dur)
qed

text \<open>
  Claim C7, as amended. In binary64, with a summation that is exact on whole numbers:
  on a frame with at least one row whose rows all have the same whole-number power
  above 10 and the same whole-number heart rate above 0 (the cadence numeric; the
  number of rows times the power, and times the heart rate, below \<open>2^53\<close>), the
  decoupling is exactly 0. And with any summation: on every frame with numeric
  columns and an active sample, the decoupling is 0 when the midpoint split of the
  active rows leaves a half empty.
\<close>

theorem steady_ride_decoupling:
  "(exact_on_whole np_sum \<and>
    ''power'' \<in> set (columns df) \<and> ''heart_rate'' \<in> set (columns df) \<and>
    ''cadence'' \<in> set (columns df) \<and> rows df \<noteq> [] \<and> 10 < p \<and> 0 < h \<and>
    length (rows df) * p < 2 ^ 53 \<and> length (rows df) * h < 2 ^ 53 \<and>
    (\<forall>r\<in>set (rows df). r ''power'' = Num (real p) \<and> r ''heart_rate'' = Num (real h) \<and>
        numeric (r ''cadence''))
     \<longrightarrow> (\<exists>m. calculate_metrics_f64 dt np_sum df = Inr (Some m) \<and> decoupling m = Fin 0)) \<and>
   (has_numeric df ''power'' \<and> has_numeric df ''heart_rate'' \<and> has_numeric df ''cadence'' \<and>
    active_rows df \<noteq> [] \<and>
    (take (length (active_rows df) div 2) (active_rows df) = [] \<or>
     drop (length (active_rows df) div 2) (active_rows df) = [])
     \<longrightarrow> (\<exists>m. calculate_metrics_f64 dt np_sum df = Inr (Some m) \<and> decoupling m = Fin 0))"
proof (intro conjI impI)
  assume a: "exact_on_whole np_sum \<and>
    ''power'' \<in> set (columns df) \<and> ''heart_rate'' \<in> set (columns df) \<and>
    ''cadence'' \<in> set (columns df) \<and> rows df \<noteq> [] \<and> 10 < p \<and> 0 < h \<and>
    length (rows df) * p < 2 ^ 53 \<and> length (rows df) * h < 2 ^ 53 \<and>
    (\<forall>r\<in>set (rows df). r ''power'' = Num (real p) \<and> r ''heart_rate'' = Num (real h) \<and>
        numeric (r ''cadence''))"
  let ?rs = "rows df"
  let ?n1 = "length ?rs div 2"
  let ?n2 = "length ?rs - length ?rs div 2"
  from a have ex: "exact_on_whole np_sum" and p: "10 < p" and h: "0 < h"
    and ne0: "?rs \<noteq> []"
    and bp: "length ?rs * p < 2 ^ 53" and bh: "length ?rs * h < 2 ^ 53"
    by blast+
  from a have pw: "\<forall>r\<in>set ?rs. r ''power'' = Num (real p)"
    and hr: "\<forall>r\<in>set ?rs. r ''heart_rate'' = Num (real h)"
    by blast+
  have len: "0 < length ?rs"
    using ne0 by simp
  have p53: "p < 2 ^ 53"
    using len bp by (rule factor_bounds(1))
  have h53: "h < 2 ^ 53"
    using len bh by (rule factor_bounds(1))
  have act: "active_rows df = ?rs"
    using pw p by (intro all_active_rows [of df "real p"]) simp_all
  have np: "has_numeric df ''power''" and nh: "has_numeric df ''heart_rate''"
    using a by (auto intro!: has_numeric_present)
  have nc: "has_numeric df ''cadence''"
    using a by (simp add: has_numeric_def list_all_iff)
  have ne: "active_rows df \<noteq> []"
    using act ne0 by simp
  have halves: "halves_decoupling_f64 np_sum ?rs =
     (let n1 = ?n1; n2 = ?n2;
          ef1 = f64_div (nanmean np_sum (replicate n1 (Fin (real p))))
                        (nanmean np_sum (replicate n1 (Fin (real h))));
          ef2 = f64_div (nanmean np_sum (replicate n2 (Fin (real p))))
                        (nanmean np_sum (replicate n2 (Fin (real h))))
      in if n1 = 0 \<or> n2 = 0 then Fin 0
         else f64_mul (f64_div (f64_sub ef1 ef2) ef1) (Fin 100))"
    by (rule halves_constant [OF pw hr round64_nat [OF p53] round64_nat [OF h53]])
  have dec: "halves_decoupling_f64 np_sum ?rs = Fin 0"
  proof (cases "?n1 = 0 \<or> ?n2 = 0")
    case True
    then show ?thesis
      unfolding halves Let_def by (simp only: if_True)
  next
    case False
    then have pos: "0 < ?n1" "0 < ?n2"
      by simp_all
    have b: "?n1 * p < 2 ^ 53" "?n1 * h < 2 ^ 53" "?n2 * p < 2 ^ 53" "?n2 * h < 2 ^ 53"
    proof -
      have "?n1 * p \<le> length ?rs * p" "?n2 * p \<le> length ?rs * p"
          "?n1 * h \<le> length ?rs * h" "?n2 * h \<le> length ?rs * h"
        by (simp_all add: mult_le_mono1)
      with bp bh show "?n1 * p < 2 ^ 53" "?n1 * h < 2 ^ 53" "?n2 * p < 2 ^ 53" "?n2 * h < 2 ^ 53"
        by linarith+
    qed
    have pp: "0 < p"
      using p by simp
    have m: "nanmean np_sum (replicate ?n1 (Fin (real p))) = Fin (real p)"
        "nanmean np_sum (replicate ?n1 (Fin (real h))) = Fin (real h)"
        "nanmean np_sum (replicate ?n2 (Fin (real p))) = Fin (real p)"
        "nanmean np_sum (replicate ?n2 (Fin (real h))) = Fin (real h)"
      using nanmean_constant_whole [OF ex pos(1) b(1) pp]
        nanmean_constant_whole [OF ex pos(1) b(2) h]
        nanmean_constant_whole [OF ex pos(2) b(3) pp]
        nanmean_constant_whole [OF ex pos(2) b(4) h]
      by blast+
    obtain r where r: "round64 (real p / real h) = Fin r" "0 < r"
      using ratio_rounds_positive [OF pp p53 h h53] by blast
    have ef: "f64_div (Fin (real p)) (Fin (real h)) = Fin r"
      using h r(1) by (simp add: f64_div_def)
    have "f64_mul (f64_div (f64_sub (Fin r) (Fin r)) (Fin r)) (Fin 100) = Fin 0"
      using r(2) by (simp add: f64_sub_def f64_div_def f64_mul_def)
    then show ?thesis
      unfolding halves Let_def m ef using False by (simp only: if_False)
  qed
  show "\<exists>m. calculate_metrics_f64 dt np_sum df = Inr (Some m) \<and> decoupling m = Fin 0"
    unfolding calculate_metrics_f64_numeric [OF np nh nc ne] act
    by (simp add: dec)
next
  assume a: "has_numeric df ''power'' \<and> has_numeric df ''heart_rate'' \<and>
    has_numeric df ''cadence'' \<and> active_rows df \<noteq> [] \<and>
    (take (length (active_rows df) div 2) (active_rows df) = [] \<or>
     drop (length (active_rows df) div 2) (active_rows df) = [])"
  then have e: "take (length (active_rows df) div 2) (active_rows df) = [] \<or>
     drop (length (active_rows df) div 2) (active_rows df) = []"
    by blast
  from a have n: "has_numeric df ''power''" "has_numeric df ''heart_rate''"
      "has_numeric df ''cadence''" "active_rows df \<noteq> []"
    by blast+
  have "halves_decoupling_f64 np_sum (active_rows df) = Fin 0"
    unfolding halves_decoupling_f64_def Let_def by (simp only: e if_True)
  then show "\<exists>m. calculate_metrics_f64 dt np_sum df = Inr (Some m) \<and> decoupling m = Fin 0"
    unfolding calculate_metrics_f64_numeric [OF n] by simp
qed

text \<open>
  Five equal rows of power 200 and heart rate 130, and a ride with a single active
  row, both summed from left to right.
\<close>

theorem steady_ride_decoupling_witness:
  "(\<exists>m. calculate_metrics_f64 Float64 seq_sum steady_ride = Inr (Some m) \<and>
        decoupling m = Fin 0) \<and>
   (\<exists>m. calculate_metrics_f64 Float64 seq_sum one_active_ride = Inr (Some m) \<and>
        decoupling m = Fin 0)"
proof -
  have s: "exact_on_whole seq_sum \<and>
    ''power'' \<in> set (columns steady_ride) \<and> ''heart_rate'' \<in> set (columns steady_ride) \<and>
    ''cadence'' \<in> set (columns steady_ride) \<and> rows steady_ride \<noteq> [] \<and> (10 :: nat) < 200 \<and>
    (0 :: nat) < 130 \<and>
    length (rows steady_ride) * 200 < 2 ^ 53 \<and> length (rows steady_ride) * 130 < 2 ^ 53 \<and>
    (\<forall>r\<in>set (rows steady_ride). r ''power'' = Num (real 200) \<and>
        r ''heart_rate'' = Num (real 130) \<and> numeric (r ''cadence''))"
    by (simp add: steady_ride_def ride_columns_def sample_def seq_sum_exact)
  have a: "active_rows one_active_ride = [sample (Time 1) (Num 120) (Num 85) (Num 200)]"
    by (simp add: active_rows_def one_active_ride_def sample_def is_active_def)
  have o: "has_numeric one_active_ride ''power'' \<and> has_numeric one_active_ride ''heart_rate'' \<and>
    has_numeric one_active_ride ''cadence'' \<and> active_rows one_active_ride \<noteq> [] \<and>
    (take (length (active_rows one_active_ride) div 2) (active_rows one_active_ride) = [] \<or>
     drop (length (active_rows one_active_ride) div 2) (active_rows one_active_ride) = [])"
    unfolding a
    by (simp add: has_numeric_def one_active_ride_def ride_columns_def sample_def)
  from steady_ride_decoupling [of seq_sum steady_ride 200 130 Float64, THEN conjunct1] s
  have 1: "\<exists>m. calculate_metrics_f64 Float64 seq_sum steady_ride = Inr (Some m) \<and>
      decoupling m = Fin 0"
    by (rule mp)
  from steady_ride_decoupling [of seq_sum one_active_ride 200 130 Float64, THEN conjunct2] o
  have 2: "\<exists>m. calculate_metrics_f64 Float64 seq_sum one_active_ride = Inr (Some m) \<and>
      decoupling m = Fin 0"
    by (rule mp)
  show ?thesis
    using 1 2 by (intro conjI)
qed

text \<open>
  Power 200.3 and heart rate 130.7 as binary64 values, and the decoupling of three
  and four samples of them, operation by operation.
\<close>

lemma fractional_cells:
  "round_val (2003 / 10) = 3523714864696525 / 17592186044416"
  "round_val (1307 / 10) = 2299298716005171 / 17592186044416"
  "round64 (3523714864696525 / 17592186044416) = Fin (3523714864696525 / 17592186044416)"
  "round64 (2299298716005171 / 17592186044416) = Fin (2299298716005171 / 17592186044416)"
proof -
  show "round_val (2003 / 10) = 3523714864696525 / 17592186044416"
    by (rule round_val_eval [where e = 7 and k = 7047429729393050]) simp_all
  show "round_val (1307 / 10) = 2299298716005171 / 17592186044416"
    by (rule round_val_eval [where e = 7 and k = 4598597432010342]) simp_all
  show "round64 (3523714864696525 / 17592186044416) = Fin (3523714864696525 / 17592186044416)"
    by (rule round64_eval [where e = 7 and k = 7047429729393050]) simp_all
  show "round64 (2299298716005171 / 17592186044416) = Fin (2299298716005171 / 17592186044416)"
    by (rule round64_eval [where e = 7 and k = 4598597432010342]) simp_all
qed

lemma fractional_decoupling:
  "(let n1 = 3 :: nat;
        n2 = 4 :: nat;
        vx = Fin (3523714864696525 / 17592186044416);
        vz = Fin (2299298716005171 / 17592186044416);
        ef1 = f64_div (nanmean seq_sum (replicate n1 vx)) (nanmean seq_sum (replicate n1 vz));
        ef2 = f64_div (nanmean seq_sum (replicate n2 vx)) (nanmean seq_sum (replicate n2 vz))
    in f64_mul (f64_div (f64_sub ef1 ef2) ef1) (Fin 100))
   = Fin (4591709867209527 / 316912650057057350374175801344)"
proof -
  have "round64 (0 + (3523714864696525 / 17592186044416))
      = Fin (3523714864696525 / 17592186044416)"
    by (rule round64_eval [where e = 7 and k = 7047429729393050]) simp_all
  then have s1: "f64_add (Fin 0) (Fin (3523714864696525 / 17592186044416))
      = Fin (3523714864696525 / 17592186044416)"
    by (simp add: f64_add_def)
  have "round64 ((3523714864696525 / 17592186044416) + (3523714864696525 / 17592186044416))
      = Fin (3523714864696525 / 8796093022208)"
    by (rule round64_eval [where e = 8 and k = 7047429729393050]) simp_all
  then have s2: "f64_add (Fin (3523714864696525 / 17592186044416)) (Fin (3523714864696525 / 17592186044416))
      = Fin (3523714864696525 / 8796093022208)"
    by (simp add: f64_add_def)
  have "round64 ((3523714864696525 / 8796093022208) + (3523714864696525 / 17592186044416))
      = Fin (1321393074261197 / 2199023255552)"
    by (rule round64_eval [where e = 9 and k = 5285572297044788]) simp_all
  then have s3: "f64_add (Fin (3523714864696525 / 8796093022208)) (Fin (3523714864696525 / 17592186044416))
      = Fin (1321393074261197 / 2199023255552)"
    by (simp add: f64_add_def)
  have "round64 ((1321393074261197 / 2199023255552) / 3)
      = Fin (7047429729393051 / 35184372088832)"
    by (rule round64_eval [where e = 7 and k = 7047429729393051]) simp_all
  then have s4: "f64_div (Fin (1321393074261197 / 2199023255552)) (Fin 3)
      = Fin (7047429729393051 / 35184372088832)"
    by (simp add: f64_div_def)
  have "round64 ((1321393074261197 / 2199023255552) + (3523714864696525 / 17592186044416))
      = Fin (3523714864696525 / 4398046511104)"
    by (rule round64_eval [where e = 9 and k = 7047429729393050]) simp_all
  then have s5: "f64_add (Fin (1321393074261197 / 2199023255552)) (Fin (3523714864696525 / 17592186044416))
      = Fin (3523714864696525 / 4398046511104)"
    by (simp add: f64_add_def)
  have "round64 ((3523714864696525 / 4398046511104) / 4)
      = Fin (3523714864696525 / 17592186044416)"
    by (rule round64_eval [where e = 7 and k = 7047429729393050]) simp_all
  then have s6: "f64_div (Fin (3523714864696525 / 4398046511104)) (Fin 4)
      = Fin (3523714864696525 / 17592186044416)"
    by (simp add: f64_div_def)
  have "round64 (0 + (2299298716005171 / 17592186044416))
      = Fin (2299298716005171 / 17592186044416)"
    by (rule round64_eval [where e = 7 and k = 4598597432010342]) simp_all
  then have s7: "f64_add (Fin 0) (Fin (2299298716005171 / 17592186044416))
      = Fin (2299298716005171 / 17592186044416)"
    by (simp add: f64_add_def)
  have "round64 ((2299298716005171 / 17592186044416) + (2299298716005171 / 17592186044416))
      = Fin (2299298716005171 / 8796093022208)"
    by (rule round64_eval [where e = 8 and k = 4598597432010342]) simp_all
  then have s8: "f64_add (Fin (2299298716005171 / 17592186044416)) (Fin (2299298716005171 / 17592186044416))
      = Fin (2299298716005171 / 8796093022208)"
    by (simp add: f64_add_def)
  have "round64 ((2299298716005171 / 8796093022208) + (2299298716005171 / 17592186044416))
      = Fin (6897896148015513 / 17592186044416)"
    by (rule round64_eval [where e = 8 and k = 6897896148015513]) simp_all
  then have s9: "f64_add (Fin (2299298716005171 / 8796093022208)) (Fin (2299298716005171 / 17592186044416))
      = Fin (6897896148015513 / 17592186044416)"
    by (simp add: f64_add_def)
  have "round64 ((6897896148015513 / 17592186044416) / 3)
      = Fin (2299298716005171 / 17592186044416)"
    by (rule round64_eval [where e = 7 and k = 4598597432010342]) simp_all
  then have s10: "f64_div (Fin (6897896148015513 / 17592186044416)) (Fin 3)
      = Fin (2299298716005171 / 17592186044416)"
    by (simp add: f64_div_def)
  have "round64 ((6897896148015513 / 17592186044416) + (2299298716005171 / 17592186044416))
      = Fin (2299298716005171 / 4398046511104)"
    by (rule round64_eval [where e = 9 and k = 4598597432010342]) simp_all
  then have s11: "f64_add (Fin (6897896148015513 / 17592186044416)) (Fin (2299298716005171 / 17592186044416))
      = Fin (2299298716005171 / 4398046511104)"
    by (simp add: f64_add_def)
  have "round64 ((2299298716005171 / 4398046511104) / 4)
      = Fin (2299298716005171 / 17592186044416)"
    by (rule round64_eval [where e = 7 and k = 4598597432010342]) simp_all
  then have s12: "f64_div (Fin (2299298716005171 / 4398046511104)) (Fin 4)
      = Fin (2299298716005171 / 17592186044416)"
    by (simp add: f64_div_def)
  have "round64 ((7047429729393051 / 35184372088832) / (2299298716005171 / 17592186044416))
      = Fin (1725460989598911 / 1125899906842624)"
    by (rule round64_eval [where e = 0 and k = 6901843958395644]) simp_all
  then have s13: "f64_div (Fin (7047429729393051 / 35184372088832)) (Fin (2299298716005171 / 17592186044416))
      = Fin (1725460989598911 / 1125899906842624)"
    by (simp add: f64_div_def)
  have "round64 ((3523714864696525 / 17592186044416) / (2299298716005171 / 17592186044416))
      = Fin (6901843958395643 / 4503599627370496)"
    by (rule round64_eval [where e = 0 and k = 6901843958395643]) simp_all
  then have s14: "f64_div (Fin (3523714864696525 / 17592186044416)) (Fin (2299298716005171 / 17592186044416))
      = Fin (6901843958395643 / 4503599627370496)"
    by (simp add: f64_div_def)
  have "round64 ((1725460989598911 / 1125899906842624) - (6901843958395643 / 4503599627370496))
      = Fin (1 / 4503599627370496)"
    by (rule round64_eval [where e = "- 52" and k = 4503599627370496]) simp_all
  then have s15: "f64_sub (Fin (1725460989598911 / 1125899906842624)) (Fin (6901843958395643 / 4503599627370496))
      = Fin (1 / 4503599627370496)"
    by (simp add: f64_sub_def)
  have "round64 ((1 / 4503599627370496) / (1725460989598911 / 1125899906842624))
      = Fin (2938694315014097 / 20282409603651670423947251286016)"
    by (rule round64_eval [where e = "- 53" and k = 5877388630028194]) simp_all
  then have s16: "f64_div (Fin (1 / 4503599627370496)) (Fin (1725460989598911 / 1125899906842624))
      = Fin (2938694315014097 / 20282409603651670423947251286016)"
    by (simp add: f64_div_def)
  have "round64 ((2938694315014097 / 20282409603651670423947251286016) * 100)
      = Fin (4591709867209527 / 316912650057057350374175801344)"
    by (rule round64_eval [where e = "- 46" and k = 4591709867209527]) simp_all
  then have s17: "f64_mul (Fin (2938694315014097 / 20282409603651670423947251286016)) (Fin 100)
      = Fin (4591709867209527 / 316912650057057350374175801344)"
    by (simp add: f64_mul_def)
  have mp3: "nanmean seq_sum (replicate 3 (Fin (3523714864696525 / 17592186044416)))
      = Fin (7047429729393051 / 35184372088832)"
    by (simp add: nanmean_def seq_sum_def round64_numeral replicate_three_four s1 s2 s3 s4)
  have mp4: "nanmean seq_sum (replicate 4 (Fin (3523714864696525 / 17592186044416)))
      = Fin (3523714864696525 / 17592186044416)"
    by (simp add: nanmean_def seq_sum_def round64_numeral replicate_three_four s1 s2 s3 s5 s6)
  have mh3: "nanmean seq_sum (replicate 3 (Fin (2299298716005171 / 17592186044416)))
      = Fin (2299298716005171 / 17592186044416)"
    by (simp add: nanmean_def seq_sum_def round64_numeral replicate_three_four s7 s8 s9 s10)
  have mh4: "nanmean seq_sum (replicate 4 (Fin (2299298716005171 / 17592186044416)))
      = Fin (2299298716005171 / 17592186044416)"
    by (simp add: nanmean_def seq_sum_def round64_numeral replicate_three_four s7 s8 s9 s11 s12)
  show ?thesis
    unfolding Let_def mp3 mp4 mh3 mh4 s13 s14 s15 s16 s17 ..
qed

text \<open>
  The claim as it was stated fails on a steady ride whose values are no whole
  numbers. Seven samples of power 200.3 and heart rate 130.7: the mean of the first
  three powers rounds to 200.30000000000004, the mean of the last four to 200.3,
  and the decoupling is 1.4488881609436638e-14 (the fraction below), not 0.
\<close>

theorem steady_ride_float_drift:
  "list_all (\<lambda>r. r ''power'' = Num (round_val (2003 / 10)) \<and>
                 r ''heart_rate'' = Num (round_val (1307 / 10)) \<and> r ''cadence'' = Num 88)
     (rows fractional_ride) \<and>
   10 < round_val (2003 / 10) \<and> 0 < round_val (1307 / 10) \<and>
   (\<exists>m. calculate_metrics_f64 Float64 seq_sum fractional_ride = Inr (Some m) \<and>
        decoupling m = Fin (4591709867209527 / 316912650057057350374175801344) \<and>
        decoupling m \<noteq> Fin 0)"
proof -
  let ?P = "3523714864696525 / 17592186044416 :: real"
  let ?H = "2299298716005171 / 17592186044416 :: real"
  have c: "list_all (\<lambda>r. r ''power'' = Num (round_val (2003 / 10)) \<and>
                 r ''heart_rate'' = Num (round_val (1307 / 10)) \<and> r ''cadence'' = Num 88)
     (rows fractional_ride)"
    by (simp add: fractional_ride_def sample_def list_all_iff)
  then have pw: "\<forall>r\<in>set (rows fractional_ride). r ''power'' = Num ?P"
    and hr: "\<forall>r\<in>set (rows fractional_ride). r ''heart_rate'' = Num ?H"
    by (simp_all add: list_all_iff fractional_cells)
  have cad: "\<forall>r\<in>set (rows fractional_ride). \<exists>x. r ''cadence'' = Num x"
    using c by (auto simp: list_all_iff)
  have cols: "''power'' \<in> set (columns fractional_ride)"
      "''heart_rate'' \<in> set (columns fractional_ride)"
      "''cadence'' \<in> set (columns fractional_ride)"
    by (simp_all add: fractional_ride_def ride_columns_def)
  have n: "has_numeric fractional_ride ''power''" "has_numeric fractional_ride ''heart_rate''"
      "has_numeric fractional_ride ''cadence''"
    using cols pw hr cad by (auto intro!: has_numeric_present)
  have len: "length (rows fractional_ride) = 7"
    by (simp add: fractional_ride_def)
  have act: "active_rows fractional_ride = rows fractional_ride"
    using pw by (rule all_active_rows) simp
  have ne: "active_rows fractional_ride \<noteq> []"
    unfolding act using len by auto
  have b: "10 < round_val (2003 / 10)" "0 < round_val (1307 / 10)"
    by (simp_all add: fractional_cells)
  have "halves_decoupling_f64 seq_sum (rows fractional_ride)
      = Fin (4591709867209527 / 316912650057057350374175801344)"
    unfolding halves_constant [OF pw hr fractional_cells(3,4)] len
    using fractional_decoupling by (simp add: Let_def)
  then have "\<exists>m. calculate_metrics_f64 Float64 seq_sum fractional_ride = Inr (Some m) \<and>
        decoupling m = Fin (4591709867209527 / 316912650057057350374175801344) \<and>
        decoupling m \<noteq> Fin 0"
    unfolding calculate_metrics_f64_numeric [OF n ne] act by simp
  with c b show ?thesis
    by (intro conjI)
qed

section \<open>Properties of the normalizer\<close>

lemma take_is_prefix: "(take (length pat) s = pat) = (\<exists>b. s = pat @ b)"
  by (metis append_eq_conv_conj append_take_drop_id)

lemma str_contains_iff: "str_contains pat s = has_substring pat s"
proof (induction s)
  case Nil
  then show ?case by (simp add: has_substring_def)
next
  case (Cons c cs)
  have "has_substring pat (c # cs) = ((\<exists>b. c # cs = pat @ b) \<or> has_substring pat cs)"
  proof
    assume "has_substring pat (c # cs)"
    then obtain a b where ab: "c # cs = a @ pat @ b"
      by (auto simp: has_substring_def)
    show "(\<exists>b. c # cs = pat @ b) \<or> has_substring pat cs"
    proof (cases a)
      case Nil
      with ab show ?thesis by auto
    next
      case (Cons x a')
      with ab have "cs = a' @ pat @ b" by simp
      then show ?thesis by (auto simp: has_substring_def)
    qed
  next
    assume "(\<exists>b. c # cs = pat @ b) \<or> has_substring pat cs"
    then show "has_substring pat (c # cs)"
    proof
      assume "\<exists>b. c # cs = pat @ b"
      then obtain b where "c # cs = [] @ pat @ b" by auto
      then show ?thesis unfolding has_substring_def by blast
    next
      assume "has_substring pat cs"
      then obtain a b where "cs = a @ pat @ b" by (auto simp: has_substring_def)
      then have "c # cs = (c # a) @ pat @ b" by simp
      then show ?thesis unfolding has_substring_def by blast
    qed
  qed
  with Cons show ?case
    by (simp only: str_contains.simps take_is_prefix)
qed

lemma has_substring_single: "has_substring [x] s = (x \<in> set s)"
  by (auto simp: has_substring_def in_set_conv_decomp)

lemma first_present_dropna:
  "first_present cs = (case dropna_series cs of [] \<Rightarrow> None | c # _ \<Rightarrow> Some c)"
  by (induction cs) (simp_all add: first_present_def dropna_series_def)

lemma is_shifted_iff: "is_shifted df = marker_detected df"
proof (cases "''GOTOES_CSV'' \<in> set (columns df)")
  case False
  then show ?thesis by (simp add: is_shifted_def marker_detected_def)
next
  case True
  let ?cs = "map (\<lambda>r. r ''GOTOES_CSV'') (rows df)"
  show ?thesis
  proof (cases "dropna_series ?cs")
    case Nil
    then have "first_present ?cs = None"
      by (simp add: first_present_dropna)
    with Nil True show ?thesis
      by (simp add: is_shifted_def marker_detected_def)
  next
    case (Cons c cs')
    then have "first_present ?cs = Some c"
      by (simp add: first_present_dropna)
    with Cons True show ?thesis
      by (cases c)
        (simp_all add: is_shifted_def marker_detected_def str_contains_iff has_substring_single)
  qed
qed

lemma set_col_first:
  "set_col empty_frame k (map f rs) = \<lparr>columns = [k], rows = map (\<lambda>r. (\<lambda>_. NA)(k := f r)) rs\<rparr>"
  by (simp add: set_col_def empty_frame_def)

lemma zip_map_same: "zip (map g rs) (map f rs) = map (\<lambda>r. (g r, f r)) rs"
  by (induction rs) simp_all

lemma set_col_next:
  "set_col \<lparr>columns = cs, rows = map g rs\<rparr> k (map f rs)
     = \<lparr>columns = (if k \<in> set cs then cs else cs @ [k]),
        rows = map (\<lambda>r. (g r)(k := f r)) rs\<rparr>"
  by (simp add: set_col_def zip_map_same)

lemma columns_set_col:
  "columns (set_col d k vs) = (if k \<in> set (columns d) then columns d else columns d @ [k])"
  by (simp add: set_col_def)

lemma dropna_raises_iff:
  "(\<exists>e. dropna d ks = Inl e) = (\<not> set ks \<subseteq> set (columns d))"
proof (cases "filter (\<lambda>k. k \<notin> set (columns d)) ks")
  case Nil
  then have "set ks \<subseteq> set (columns d)"
    by (auto simp: filter_empty_conv)
  with Nil show ?thesis by (simp add: dropna_def)
next
  case (Cons m ms)
  then have "m \<in> set (filter (\<lambda>k. k \<notin> set (columns d)) ks)" by simp
  then have "\<not> set ks \<subseteq> set (columns d)" by auto
  with Cons show ?thesis by (simp add: dropna_def)
qed

lemma clean_standard_columns:
  "columns (clean_standard td df) =
     (if ''power'' \<in> set (columns df)
      then filter (\<lambda>k. k \<in> set (columns df)) [''timestamp'', ''heart_rate'', ''cadence'', ''power'']
      else [])"
  by (simp add: clean_standard_def col_map_def Let_def columns_set_col empty_frame_def)

lemma clean_shifted_result:
  "clean_shifted td tn df =
     (if ''GOTOES_CSV'' \<notin> set (columns df) then Inl (KeyError [''GOTOES_CSV''])
      else if ''altitude'' \<notin> set (columns df) then Inl (KeyError [''altitude''])
      else if ''heart_rate'' \<notin> set (columns df) then Inl (KeyError [''heart_rate''])
      else if ''speed'' \<notin> set (columns df) then Inl (KeyError [''speed''])
      else Inr \<lparr>columns = [''timestamp'', ''heart_rate'', ''cadence'', ''power''],
                rows = map (\<lambda>r. (\<lambda>_. NA)
                  (''timestamp'' := (case td (r ''GOTOES_CSV'') of None \<Rightarrow> NA | Some t \<Rightarrow> Time t),
                   ''heart_rate'' := (case tn (r ''altitude'') of None \<Rightarrow> NA | Some x \<Rightarrow> Num x),
                   ''cadence'' := (case tn (r ''heart_rate'') of None \<Rightarrow> NA | Some x \<Rightarrow> Num x),
                   ''power'' := (case tn (r ''speed'') of None \<Rightarrow> NA | Some x \<Rightarrow> Num x)))
                  (rows df)\<rparr>)"
  by (simp add: clean_shifted_def get_col_def coerce_datetime_def coerce_numeric_def
      set_col_first set_col_next o_def)

lemma clean_standard_result:
  assumes "''power'' \<in> set (columns df)" and "''timestamp'' \<in> set (columns df)"
  shows "clean_standard td df =
     \<lparr>columns = filter (\<lambda>k. k \<in> set (columns df))
                  [''timestamp'', ''heart_rate'', ''cadence'', ''power''],
      rows = map (standard_row td (columns df)) (rows df)\<rparr>"
proof -
  have "clean_standard td df =
     \<lparr>columns = filter (\<lambda>k. k \<in> set (columns df))
                  [''timestamp'', ''heart_rate'', ''cadence'', ''power''],
      rows = map (\<lambda>r. standard_row td (columns df) r) (rows df)\<rparr>"
    using assms
    by (cases "''heart_rate'' \<in> set (columns df)"; cases "''cadence'' \<in> set (columns df)")
      (auto simp: clean_standard_def col_map_def Let_def coerce_datetime_def
        set_col_first set_col_next o_def standard_row_def fun_eq_iff)
  then show ?thesis by simp
qed

lemma parse_body_raises_iff:
  "(\<exists>e. parse_body td tn df = Inl e) =
     (if is_shifted df
      then \<not> {''altitude'', ''heart_rate'', ''speed''} \<subseteq> set (columns df)
      else \<not> {''power'', ''timestamp''} \<subseteq> set (columns df))"
proof (cases "is_shifted df")
  case True
  then have m: "''GOTOES_CSV'' \<in> set (columns df)"
    by (simp add: is_shifted_def split: if_splits)
  show ?thesis
    using True m
    by (auto simp: parse_body_def clean_shifted_result dropna_def)
next
  case False
  have "(\<exists>e. dropna (clean_standard td df) [''timestamp'', ''power''] = Inl e)
          = (\<not> {''power'', ''timestamp''} \<subseteq> set (columns df))"
    unfolding dropna_raises_iff clean_standard_columns by auto
  with False show ?thesis
    by (simp add: parse_body_def)
qed

lemma shifted_layout_result:
  assumes "is_shifted df"
    and "''altitude'' \<in> set (columns df)" "''heart_rate'' \<in> set (columns df)"
      "''speed'' \<in> set (columns df)"
  shows "parse_body td tn df =
     Inr \<lparr>columns = [''timestamp'', ''heart_rate'', ''cadence'', ''power''],
          rows = map (shifted_row td tn) (filter (shifted_kept td tn) (rows df))\<rparr>"
proof -
  have m: "''GOTOES_CSV'' \<in> set (columns df)"
    using assms(1) by (simp add: is_shifted_def split: if_splits)
  have row: "(\<lambda>r. (\<lambda>_. NA)
       (''timestamp'' := (case td (r ''GOTOES_CSV'') of None \<Rightarrow> NA | Some t \<Rightarrow> Time t),
        ''heart_rate'' := (case tn (r ''altitude'') of None \<Rightarrow> NA | Some x \<Rightarrow> Num x),
        ''cadence'' := (case tn (r ''heart_rate'') of None \<Rightarrow> NA | Some x \<Rightarrow> Num x),
        ''power'' := (case tn (r ''speed'') of None \<Rightarrow> NA | Some x \<Rightarrow> Num x)))
      = shifted_row td tn"
    by (simp add: fun_eq_iff shifted_row_def)
  have keep: "(\<lambda>r. r ''timestamp'' \<noteq> NA \<and> r ''power'' \<noteq> NA) \<circ> shifted_row td tn
                = shifted_kept td tn"
    by (auto simp: fun_eq_iff shifted_row_def shifted_kept_def split: option.splits)
  have "clean_shifted td tn df =
      Inr \<lparr>columns = [''timestamp'', ''heart_rate'', ''cadence'', ''power''],
           rows = map (shifted_row td tn) (rows df)\<rparr>"
    using m assms(2-4) unfolding clean_shifted_result row by simp
  then show ?thesis
    using assms(1) by (simp add: parse_body_def dropna_def filter_map keep)
qed

text \<open>
  Claim C1. The shifted (Layout B) assignment is applied exactly when the marker
  column \<open>GOTOES_CSV\<close> exists and its first value that is not missing is a string
  containing \<open>202\<close> or the letter \<open>T\<close>; in every other case the standard
  (Layout A) branch is taken. When the shifted assignment is applied and the three
  columns it reads exist, the result holds the remapped rows. A number is no string
  and holds no substring: a marker column that was read as numbers never selects the
  shifted layout.
\<close>

theorem layout_detection:
  "is_shifted df = marker_detected df \<and>
   (marker_detected df \<longrightarrow>
      parse_body td tn df
        = bind_exn (clean_shifted td tn df) (\<lambda>d. dropna d [''timestamp'', ''power''])) \<and>
   (marker_detected df \<and> {''altitude'', ''heart_rate'', ''speed''} \<subseteq> set (columns df) \<longrightarrow>
      parse_body td tn df
        = Inr \<lparr>columns = [''timestamp'', ''heart_rate'', ''cadence'', ''power''],
               rows = map (shifted_row td tn) (filter (shifted_kept td tn) (rows df))\<rparr>) \<and>
   (\<not> marker_detected df \<longrightarrow>
      parse_body td tn df = dropna (clean_standard td df) [''timestamp'', ''power''])"
  using shifted_layout_result [of df td tn]
  by (simp add: is_shifted_iff [symmetric] parse_body_def)

text \<open>
  A shifted export, whose first marker cell is missing and whose second is a date,
  and a table whose marker column holds the number 2024.
\<close>

theorem layout_detection_witness:
  "marker_detected shifted_export \<and>
   (case parse_body stub_to_datetime stub_to_numeric shifted_export of
      Inl e \<Rightarrow> []
    | Inr d \<Rightarrow> map (\<lambda>r. (r ''timestamp'', r ''heart_rate'', r ''cadence'', r ''power'')) (rows d))
     = [(Time 19, Num 121, Num 86, Num 185)] \<and>
   \<not> marker_detected numeric_marker_export \<and>
   parse_body stub_to_datetime stub_to_numeric numeric_marker_export
     = dropna (clean_standard stub_to_datetime numeric_marker_export) [''timestamp'', ''power'']"
proof -
  have a: "is_shifted shifted_export"
    by (simp add: is_shifted_def shifted_export_def raw_row_def dropna_series_def)
  have b: "\<not> is_shifted numeric_marker_export"
    by (simp add: is_shifted_def numeric_marker_export_def raw_row_def dropna_series_def)
  have c: "{''altitude'', ''heart_rate'', ''speed''} \<subseteq> set (columns shifted_export)"
    by (simp add: shifted_export_def)
  have k: "filter (shifted_kept stub_to_datetime stub_to_numeric) (rows shifted_export)
      = [raw_row [(''GOTOES_CSV'', Str ''2024-05-01T10:00:01''), (''altitude'', Num 121),
                  (''heart_rate'', Num 86), (''speed'', Num 185)]]"
    by (simp add: shifted_export_def shifted_kept_def stub_to_datetime_def stub_to_numeric_def
        raw_row_def)
  have 1: "marker_detected shifted_export"
    using layout_detection [of shifted_export stub_to_datetime stub_to_numeric] a by simp
  have 2: "parse_body stub_to_datetime stub_to_numeric shifted_export
        = Inr \<lparr>columns = [''timestamp'', ''heart_rate'', ''cadence'', ''power''],
               rows = map (shifted_row stub_to_datetime stub_to_numeric)
                 (filter (shifted_kept stub_to_datetime stub_to_numeric) (rows shifted_export))\<rparr>"
    using layout_detection [of shifted_export stub_to_datetime stub_to_numeric] 1 c by blast
  have 3: "\<not> marker_detected numeric_marker_export \<and>
     parse_body stub_to_datetime stub_to_numeric numeric_marker_export
       = dropna (clean_standard stub_to_datetime numeric_marker_export) [''timestamp'', ''power'']"
    using layout_detection [of numeric_marker_export stub_to_datetime stub_to_numeric] b by simp
  show ?thesis
    using 1 3 unfolding 2 k
    by (simp add: shifted_row_def stub_to_datetime_def stub_to_numeric_def raw_row_def)
qed

lemma standard_layout_result:
  assumes "\<not> is_shifted df"
    and "''power'' \<in> set (columns df)" and "''timestamp'' \<in> set (columns df)"
  shows "parse_body td tn df =
     Inr \<lparr>columns = filter (\<lambda>k. k \<in> set (columns df))
                      [''timestamp'', ''heart_rate'', ''cadence'', ''power''],
          rows = map (standard_row td (columns df)) (filter (standard_kept td) (rows df))\<rparr>"
proof -
  have keep: "(\<lambda>r. r ''timestamp'' \<noteq> NA \<and> r ''power'' \<noteq> NA) \<circ> standard_row td (columns df)
                = standard_kept td"
    using assms(2) by (auto simp: fun_eq_iff standard_row_def standard_kept_def split: option.splits)
  show ?thesis
    using assms
    by (simp add: parse_body_def clean_standard_result dropna_def filter_map keep)
qed

text \<open>
  The standard branch does not parse the power cells, as the shifted branch does: a
  power that is text stays in the result, and \<^verbatim>\<open>calculate_metrics\<close> then raises on
  the comparison with 10.
\<close>

lemma standard_layout_keeps_text_power:
  "map (\<lambda>r. r ''power'')
     (rows (fst (parse_file stub_read_csv stub_to_datetime stub_to_numeric
       (Table text_power_export)))) = [Str ''err''] \<and>
   calculate_metrics (fst (parse_file stub_read_csv stub_to_datetime stub_to_numeric
       (Table text_power_export))) = Inl TypeError"
proof -
  have ns: "\<not> is_shifted text_power_export"
    by (simp add: is_shifted_def text_power_export_def)
  have c: "''power'' \<in> set (columns text_power_export)"
      "''timestamp'' \<in> set (columns text_power_export)"
    by (simp_all add: text_power_export_def)
  have k: "filter (standard_kept stub_to_datetime) (rows text_power_export)
      = rows text_power_export"
    by (simp add: text_power_export_def standard_kept_def stub_to_datetime_def raw_row_def)
  show ?thesis
    unfolding parse_file_def stub_read_csv_def
    by (simp add: standard_layout_result [OF ns c] k)
      (simp add: text_power_export_def standard_row_def raw_row_def calculate_metrics_def
        get_col_def series_gt_def)
qed

text \<open>
  Claim C9. Whatever \<^verbatim>\<open>pd.read_csv\<close> does with the upload, \<^verbatim>\<open>parse_file\<close> returns:
  when the reader raises, or a later step of the body raises (a column the chosen
  layout reads is missing), the error is shown and the empty frame is returned; when
  nothing raises, the cleaned frame is returned and nothing is shown. So the result
  is either a frame without a shown error, or the empty frame with exactly one. The
  body raises exactly when the shifted layout is detected and one of \<open>altitude\<close>,
  \<open>heart_rate\<close>, \<open>speed\<close> is no column, or it is not detected and \<open>power\<close> or
  \<open>timestamp\<close> is no column.
  (Exceptions that are no \<^verbatim>\<open>Exception\<close>, such as a keyboard interrupt, are outside the
  model.)
\<close>

theorem parse_file_boundary:
  "(\<forall>e. read_csv f = Inl e \<longrightarrow> parse_file read_csv td tn f = (empty_frame, [e])) \<and>
   (\<forall>df e. read_csv f = Inr df \<and> parse_body td tn df = Inl e
      \<longrightarrow> parse_file read_csv td tn f = (empty_frame, [e])) \<and>
   (\<forall>df d. read_csv f = Inr df \<and> parse_body td tn df = Inr d
      \<longrightarrow> parse_file read_csv td tn f = (d, [])) \<and>
   (\<exists>d errs. parse_file read_csv td tn f = (d, errs) \<and>
      (errs = [] \<or> (d = empty_frame \<and> length errs = 1))) \<and>
   (\<forall>df. read_csv f = Inr df \<longrightarrow>
      (\<exists>e. parse_body td tn df = Inl e) =
        (if is_shifted df
         then \<not> {''altitude'', ''heart_rate'', ''speed''} \<subseteq> set (columns df)
         else \<not> {''power'', ''timestamp''} \<subseteq> set (columns df)))"
proof (intro conjI allI impI)
  fix e assume "read_csv f = Inl e"
  then show "parse_file read_csv td tn f = (empty_frame, [e])"
    by (simp add: parse_file_def)
next
  fix df e assume "read_csv f = Inr df \<and> parse_body td tn df = Inl e"
  then show "parse_file read_csv td tn f = (empty_frame, [e])"
    by (simp add: parse_file_def)
next
  fix df d assume "read_csv f = Inr df \<and> parse_body td tn df = Inr d"
  then show "parse_file read_csv td tn f = (d, [])"
    by (simp add: parse_file_def)
next
  show "\<exists>d errs. parse_file read_csv td tn f = (d, errs) \<and>
      (errs = [] \<or> (d = empty_frame \<and> length errs = 1))"
    by (cases "bind_exn (read_csv f) (parse_body td tn)") (simp_all add: parse_file_def)
next
  fix df
  show "(\<exists>e. parse_body td tn df = Inl e) =
        (if is_shifted df
         then \<not> {''altitude'', ''heart_rate'', ''speed''} \<subseteq> set (columns df)
         else \<not> {''power'', ''timestamp''} \<subseteq> set (columns df))"
    by (rule parse_body_raises_iff)
qed

text \<open>
  An unreadable upload, a table whose marker selects the shifted layout although the
  shifted columns are missing, and a standard table.
\<close>

theorem parse_file_boundary_witness:
  "parse_file stub_read_csv stub_to_datetime stub_to_numeric Garbage
     = (empty_frame, [ReadError ''No columns to parse from file'']) \<and>
   parse_file stub_read_csv stub_to_datetime stub_to_numeric (Table marked_standard_export)
     = (empty_frame, [KeyError [''altitude'']]) \<and>
   snd (parse_file stub_read_csv stub_to_datetime stub_to_numeric (Table standard_export)) = []"
proof -
  have a: "stub_read_csv Garbage = Inl (ReadError ''No columns to parse from file'')"
    by (simp add: stub_read_csv_def)
  have b: "stub_read_csv (Table marked_standard_export) = Inr marked_standard_export \<and>
      parse_body stub_to_datetime stub_to_numeric marked_standard_export
        = Inl (KeyError [''altitude''])"
    by (simp add: stub_read_csv_def parse_body_def is_shifted_def marked_standard_export_def
        raw_row_def dropna_series_def clean_shifted_def get_col_def)
  have ns: "\<not> is_shifted standard_export"
    by (simp add: is_shifted_def standard_export_def)
  have "\<not> (\<exists>e. parse_body stub_to_datetime stub_to_numeric standard_export = Inl e)"
    unfolding parse_body_raises_iff using ns by (simp add: standard_export_def)
  then obtain d where d: "parse_body stub_to_datetime stub_to_numeric standard_export = Inr d"
    by (cases "parse_body stub_to_datetime stub_to_numeric standard_export") auto
  have c: "stub_read_csv (Table standard_export) = Inr standard_export \<and>
      parse_body stub_to_datetime stub_to_numeric standard_export = Inr d"
    using d by (simp add: stub_read_csv_def)
  from parse_file_boundary [of stub_read_csv Garbage stub_to_datetime stub_to_numeric] a
  have 1: "parse_file stub_read_csv stub_to_datetime stub_to_numeric Garbage
     = (empty_frame, [ReadError ''No columns to parse from file''])"
    by blast
  from parse_file_boundary [of stub_read_csv "Table marked_standard_export"
      stub_to_datetime stub_to_numeric] b
  have 2: "parse_file stub_read_csv stub_to_datetime stub_to_numeric (Table marked_standard_export)
     = (empty_frame, [KeyError [''altitude'']])"
    by blast
  from parse_file_boundary [of stub_read_csv "Table standard_export"
      stub_to_datetime stub_to_numeric] c
  have 3: "snd (parse_file stub_read_csv stub_to_datetime stub_to_numeric (Table standard_export)) = []"
    by (metis snd_conv)
  show ?thesis
    using 1 2 3 by (intro conjI)
qed

text \<open>
  Claim C2, as amended. For a raw table on which the shifted layout is not detected,
  with a \<open>power\<close> and a \<open>timestamp\<close> column and power cells that are numbers or
  missing: no error is shown, and the result holds, in the original order, exactly
  the rows whose timestamp parses and whose power is not missing, each with its
  timestamp parsed and its heart rate, cadence and power as they were read. An
  unparseable timestamp becomes missing and does not raise.
\<close>

theorem standard_layout_rows:
  assumes "read_csv f = Inr df" and "\<not> is_shifted df"
    and "''power'' \<in> set (columns df)" and "''timestamp'' \<in> set (columns df)"
    and "\<forall>r\<in>set (rows df). numeric (r ''power'')"
  shows "parse_file read_csv td tn f =
     (\<lparr>columns = filter (\<lambda>k. k \<in> set (columns df))
                   [''timestamp'', ''heart_rate'', ''cadence'', ''power''],
       rows = map (standard_row td (columns df)) (filter (standard_kept td) (rows df))\<rparr>, [])"
  using assms(1) standard_layout_result [OF assms(2,3,4)]
  by (simp add: parse_file_def)

text \<open>
  Four rows: the second has an unparseable timestamp, the third no power; the first
  and the fourth are kept, in this order.
\<close>

theorem standard_layout_rows_witness:
  "map (\<lambda>r. r ''timestamp'') (rows (fst (parse_file stub_read_csv stub_to_datetime
       stub_to_numeric (Table standard_export)))) = [Time 19, Time 19] \<and>
   map (\<lambda>r. r ''power'') (rows (fst (parse_file stub_read_csv stub_to_datetime
       stub_to_numeric (Table standard_export)))) = [Num 200, Num 190] \<and>
   columns (fst (parse_file stub_read_csv stub_to_datetime stub_to_numeric
       (Table standard_export))) = [''timestamp'', ''heart_rate'', ''power''] \<and>
   snd (parse_file stub_read_csv stub_to_datetime stub_to_numeric (Table standard_export)) = []"
proof -
  have r: "stub_read_csv (Table standard_export) = Inr standard_export"
    by (simp add: stub_read_csv_def)
  have ns: "\<not> is_shifted standard_export"
    by (simp add: is_shifted_def standard_export_def)
  have c: "''power'' \<in> set (columns standard_export)"
      "''timestamp'' \<in> set (columns standard_export)"
    by (simp_all add: standard_export_def)
  have n: "\<forall>r\<in>set (rows standard_export). numeric (r ''power'')"
    by (simp add: standard_export_def raw_row_def)
  have k: "filter (standard_kept stub_to_datetime) (rows standard_export)
      = [raw_row [(''timestamp'', Str ''2024-05-01T10:00:00''), (''heart_rate'', Num 120),
                  (''power'', Num 200)],
         raw_row [(''timestamp'', Str ''2024-05-01T10:00:03''), (''power'', Num 190)]]"
    by (simp add: standard_export_def standard_kept_def stub_to_datetime_def raw_row_def)
  show ?thesis
    unfolding standard_layout_rows [where read_csv = stub_read_csv
        and f = "Table standard_export" and td = stub_to_datetime and tn = stub_to_numeric,
        OF r ns c n] k
    by (simp add: standard_row_def standard_export_def stub_to_datetime_def raw_row_def)
qed

text \<open>
  The claim as it was stated fails on a table with a \<open>power\<close> and a \<open>timestamp\<close>
  column whose marker column selects the shifted layout: its only row has a
  timestamp that parses and a power, and the result is empty, with a \<open>KeyError\<close>
  shown for the missing \<open>altitude\<close> column.
\<close>

theorem marker_overrides_standard_columns:
  "''power'' \<in> set (columns marked_standard_export) \<and>
   ''timestamp'' \<in> set (columns marked_standard_export) \<and>
   rows marked_standard_export \<noteq> [] \<and>
   filter (standard_kept stub_to_datetime) (rows marked_standard_export)
     = rows marked_standard_export \<and>
   parse_file stub_read_csv stub_to_datetime stub_to_numeric (Table marked_standard_export)
     = (empty_frame, [KeyError [''altitude'']]) \<and>
   rows (fst (parse_file stub_read_csv stub_to_datetime stub_to_numeric
     (Table marked_standard_export))) = []"
  by (simp add: marked_standard_export_def standard_kept_def stub_to_datetime_def raw_row_def
      parse_file_def stub_read_csv_def parse_body_def is_shifted_def dropna_series_def
      clean_shifted_def get_col_def empty_frame_def)

end
